theory Spec2Isabelle
  imports Main "HOL-Library.Sublist"
begin

section \<open>Request body parsing of @loopback/rest (packages/rest/src/body-parser.ts)\<close>

subsection \<open>JavaScript values and objects\<close>

text \<open>
  A JavaScript object maps property names to values. The properties proved about
  option objects, parse results and the returned request body only read fields by
  name, so an object is a map \<open>string \<rightharpoonup> jsval\<close>: an absent key is \<open>None\<close>, a key that is
  present with the value \<open>undefined\<close> is \<open>Some JUndefined\<close>. Numbers are restricted to
  the integer-valued ones.
\<close>

datatype jsval =
    JUndefined
  | JNull
  | JBool bool
  | JNum int
  | JStr string
  | JObj "string \<Rightarrow> jsval option"

type_synonym obj = "string \<Rightarrow> jsval option"

text \<open>\<open>o[k]\<close>: reading a property that is absent gives \<open>undefined\<close>.\<close>

definition get_prop :: "obj \<Rightarrow> string \<Rightarrow> jsval" where
  "get_prop ob k = (case ob k of None \<Rightarrow> JUndefined | Some v \<Rightarrow> v)"

text \<open>
  The own enumerable properties that \<open>Object.assign\<close> copies from a source. A source
  that is \<open>undefined\<close> or \<open>null\<close> is skipped, a boolean or a number has none. (A string
  source would contribute its characters under the keys 0, 1, ...; the declared type
  of every source in this file is an object type or \<open>undefined\<close>, so that case is
  mapped to no properties.)
\<close>

fun own_props :: "jsval \<Rightarrow> obj" where
  "own_props (JObj ps) = ps"
| "own_props _ = Map.empty"

text \<open>
  \<open>Object.assign(target, s1, s2)\<close> copies the properties of \<open>s1\<close>, then those of
  \<open>s2\<close>, into \<open>target\<close>: a later source overwrites an earlier one.
\<close>

definition Object_assign :: "obj \<Rightarrow> obj \<Rightarrow> obj" where
  "Object_assign target source = target ++ source"

definition Object_assign2 :: "obj \<Rightarrow> obj \<Rightarrow> obj \<Rightarrow> obj" where
  "Object_assign2 target s1 s2 = Object_assign (Object_assign target s1) s2"

text \<open>\<open>delete o[k]\<close>.\<close>

definition delete_prop :: "obj \<Rightarrow> string \<Rightarrow> obj" where
  "delete_prop ob k = ob(k := None)"

subsection \<open>Option resolution\<close>

definition DEFAULT_LIMIT :: string where
  "DEFAULT_LIMIT = ''1mb''"

text \<open>
  \<open>getParserOptions(type, options)\<close>: start from an empty object, assign
  \<open>options[type]\<close> and then \<open>options\<close> itself, and delete the three format keys.
\<close>

definition getParserOptions :: "string \<Rightarrow> obj \<Rightarrow> obj" where
  "getParserOptions type options =
     (let opts = Object_assign2 Map.empty (own_props (get_prop options type)) options
      in foldl delete_prop opts [''json'', ''urlencoded'', ''text''])"

text \<open>The three option objects the constructor hands to the body-parser factories.\<close>

definition jsonOptions :: "obj \<Rightarrow> obj" where
  "jsonOptions options =
     Object_assign
       [''type'' \<mapsto> JStr ''json'', ''limit'' \<mapsto> JStr DEFAULT_LIMIT]
       (getParserOptions ''json'' options)"

definition urlencodedOptions :: "obj \<Rightarrow> obj" where
  "urlencodedOptions options =
     Object_assign
       [''type'' \<mapsto> JStr ''urlencoded'', ''extended'' \<mapsto> JBool True,
        ''limit'' \<mapsto> JStr DEFAULT_LIMIT]
       (getParserOptions ''urlencoded'' options)"

definition textOptions :: "obj \<Rightarrow> obj" where
  "textOptions options =
     Object_assign
       [''type'' \<mapsto> JStr ''text/*'', ''limit'' \<mapsto> JStr DEFAULT_LIMIT]
       (getParserOptions ''text'' options)"

subsection \<open>Errors\<close>

text \<open>
  An error object: its \<open>name\<close>, its \<open>statusCode\<close> (absent on a plain \<open>Error\<close>) and
  its message. Every throw and every rejected promise of the source is a value
  \<open>Thrown err\<close> of the result type below.
\<close>

record HttpError =
  errorName :: string
  statusCode :: "int option"
  message :: string

text \<open>\<open>new Error(msg)\<close> carries no status code.\<close>

definition Error :: "string \<Rightarrow> HttpError" where
  "Error msg = \<lparr>errorName = ''Error'', statusCode = None, message = msg\<rparr>"

text \<open>\<open>new HttpErrors.UnsupportedMediaType(msg)\<close> of the http-errors package: status 415.\<close>

definition UnsupportedMediaType :: "string \<Rightarrow> HttpError" where
  "UnsupportedMediaType msg =
     \<lparr>errorName = ''UnsupportedMediaTypeError'', statusCode = Some 415, message = msg\<rparr>"

text \<open>
  \<open>!err.statusCode || err.statusCode >= 500\<close>: an absent status code and the number 0
  are falsy; \<open>undefined >= 500\<close> is false.
\<close>

definition needs_400 :: "int option \<Rightarrow> bool" where
  "needs_400 sc = (case sc of None \<Rightarrow> True | Some c \<Rightarrow> c = 0 \<or> 500 \<le> c)"

text \<open>The module-level function.\<close>

definition normalizeParsingError :: "HttpError \<Rightarrow> HttpError" where
  "normalizeParsingError err =
     (if needs_400 (statusCode err) then err\<lparr>statusCode := Some 400\<rparr> else err)"

text \<open>The private method of the class, with the same body.\<close>

definition RequestBodyParser_normalizeParsingError :: "HttpError \<Rightarrow> HttpError" where
  "RequestBodyParser_normalizeParsingError err =
     (if needs_400 (statusCode err) then err\<lparr>statusCode := Some 400\<rparr> else err)"

datatype 'a completion = Returned 'a | Thrown HttpError

subsection \<open>Requests, middleware handlers and parser entries\<close>

text \<open>
  Of a request the code reads the \<open>content-type\<close> header and, after a body-parser
  middleware has run, the \<open>body\<close> property that the middleware stored.
\<close>

record Request =
  contentTypeHeader :: "string option"
  body :: jsval

definition getContentType :: "Request \<Rightarrow> string option" where
  "getContentType req = contentTypeHeader req"

text \<open>
  \<open>BodyParserWithCallback\<close>: an express middleware mutates the request and calls the
  callback with an error or with nothing. The model returns what the callback
  received together with the request as the middleware left it.
\<close>

type_synonym BodyParserWithCallback = "Request \<Rightarrow> HttpError option \<times> Request"

text \<open>
  The module-level function \<open>parse(handle, request)\<close> (the record field \<open>parse\<close>
  below keeps the short name): the promise rejects with the normalized error, or
  resolves, after which the caller reads the mutated request.
\<close>

definition parse_handle :: "BodyParserWithCallback \<Rightarrow> Request \<Rightarrow> HttpError + Request" where
  "parse_handle handle request =
     (case handle request of
        (Some err, _) \<Rightarrow> Inl (normalizeParsingError err)
      | (None, request') \<Rightarrow> Inr request')"

text \<open>
  The interface \<open>BodyParser\<close>. \<open>supports\<close> may throw and \<open>parse\<close> may reject:
  both results are sums with the error on the left. Both are taken to answer: a
  promise that never settles is outside the model.
\<close>

record BodyParser =
  name :: "string option"
  supports :: "string \<Rightarrow> HttpError + bool"
  parse :: "Request \<Rightarrow> HttpError + obj"

text \<open>
  \<open>is(value, type)\<close> of the type-is package, a parameter of the model: the matched
  string, or \<open>None\<close> for \<open>false\<close>. A result is tested for truthiness, and the empty
  string is falsy.
\<close>

type_synonym matcher = "string \<Rightarrow> string \<Rightarrow> string option"

definition truthy :: "string option \<Rightarrow> bool" where
  "truthy r = (case r of None \<Rightarrow> False | Some s \<Rightarrow> s \<noteq> [])"

text \<open>
  The three parse methods of the class. Each reads one field of \<open>this\<close>, the
  middleware of its format, which is passed in its place.
\<close>

definition parseJsonBody :: "BodyParserWithCallback \<Rightarrow> Request \<Rightarrow> HttpError + obj" where
  "parseJsonBody jsonParser request =
     (case parse_handle jsonParser request of
        Inl err \<Rightarrow> Inl err
      | Inr request' \<Rightarrow> Inr [''value'' \<mapsto> body request'])"

definition parseUrlencodedBody :: "BodyParserWithCallback \<Rightarrow> Request \<Rightarrow> HttpError + obj" where
  "parseUrlencodedBody urlencodedParser request =
     (case parse_handle urlencodedParser request of
        Inl err \<Rightarrow> Inl err
      | Inr request' \<Rightarrow> Inr [''value'' \<mapsto> body request', ''coercionRequired'' \<mapsto> JBool True])"

definition parseTextBody :: "BodyParserWithCallback \<Rightarrow> Request \<Rightarrow> HttpError + obj" where
  "parseTextBody textParser request =
     (case parse_handle textParser request of
        Inl err \<Rightarrow> Inl err
      | Inr request' \<Rightarrow> Inr [''value'' \<mapsto> body request'])"

subsection \<open>The class RequestBodyParser\<close>

record RequestBodyParser =
  parsers :: "BodyParser list"
  jsonParser :: BodyParserWithCallback
  urlencodedParser :: BodyParserWithCallback
  textParser :: BodyParserWithCallback

text \<open>The three entries the constructor appends.\<close>

definition builtin_parsers ::
  "matcher \<Rightarrow> BodyParserWithCallback \<Rightarrow> BodyParserWithCallback \<Rightarrow> BodyParserWithCallback
     \<Rightarrow> BodyParser list" where
  "builtin_parsers is jp up tp =
     [\<lparr>name = Some ''json'',
       supports = (\<lambda>mediaType. Inr (truthy (is mediaType ''json''))),
       parse = (\<lambda>request. parseJsonBody jp request)\<rparr>,
      \<lparr>name = Some ''urlencoded'',
       supports = (\<lambda>mediaType. Inr (truthy (is mediaType ''urlencoded''))),
       parse = (\<lambda>request. parseUrlencodedBody up request)\<rparr>,
      \<lparr>name = Some ''text'',
       supports = (\<lambda>mediaType. Inr (truthy (is mediaType ''text/*''))),
       parse = (\<lambda>request. parseTextBody tp request)\<rparr>]"

text \<open>
  The constructor. \<open>mk_json\<close>, \<open>mk_urlencoded\<close> and \<open>mk_text\<close> are the factories
  \<open>json\<close>, \<open>urlencoded\<close> and \<open>text\<close> of the body-parser package, parameters of the
  model. An argument that is not given (\<open>None\<close>) takes its default, \<open>{}\<close> or \<open>[]\<close>.
\<close>

definition RequestBodyParser_constructor ::
  "(obj \<Rightarrow> BodyParserWithCallback) \<Rightarrow> (obj \<Rightarrow> BodyParserWithCallback)
     \<Rightarrow> (obj \<Rightarrow> BodyParserWithCallback) \<Rightarrow> matcher
     \<Rightarrow> obj option \<Rightarrow> BodyParser list option \<Rightarrow> RequestBodyParser" where
  "RequestBodyParser_constructor mk_json mk_urlencoded mk_text is options_arg parsers_arg =
     (let options = (case options_arg of None \<Rightarrow> Map.empty | Some ob \<Rightarrow> ob);
          given = (case parsers_arg of None \<Rightarrow> [] | Some ps \<Rightarrow> ps);
          jp = mk_json (jsonOptions options);
          up = mk_urlencoded (urlencodedOptions options);
          tp = mk_text (textOptions options)
      in \<lparr>parsers = given @ builtin_parsers is jp up tp,
          jsonParser = jp, urlencodedParser = up, textParser = tp\<rparr>)"

subsection \<open>Operation specs\<close>

text \<open>
  \<open>operationSpec.requestBody\<close> is absent, a reference object (\<open>isReferenceObject\<close>
  holds: it has a \<open>$ref\<close>), or a request body object whose \<open>content\<close> maps media-type
  patterns to media-type objects. The content is an association list in the order
  in which \<open>for ... in\<close> and \<open>Object.keys\<close> enumerate its keys.
\<close>

datatype RequestBodySpec =
    ReferenceObject string
  | RequestBodyObject "(string \<times> obj) list option"

record OperationObject =
  requestBody :: "RequestBodySpec option"

text \<open>\<open>getContentType(request) || 'application/json'\<close>: the empty string is falsy too.\<close>

definition request_contentType :: "Request \<Rightarrow> string" where
  "request_contentType request =
     (case getContentType request of
        None \<Rightarrow> ''application/json''
      | Some s \<Rightarrow> if s = [] then ''application/json'' else s)"

definition default_content :: "(string \<times> obj) list" where
  "default_content =
     [(''application/json'', [''schema'' \<mapsto> JObj [''type'' \<mapsto> JStr ''object'']]),
      (''application/x-www-form-urlencoded'', [''schema'' \<mapsto> JObj [''type'' \<mapsto> JStr ''object'']])]"

text \<open>
  \<open>let content = operationSpec.requestBody.content || {}\<close>, replaced by the default
  when it has no keys.
\<close>

definition declared_content :: "(string \<times> obj) list option \<Rightarrow> (string \<times> obj) list" where
  "declared_content c =
     (let content = (case c of None \<Rightarrow> [] | Some m \<Rightarrow> m)
      in if length (map fst content) = 0 then default_content else content)"

text \<open>\<open>`${Object.keys(content)}`\<close>: the keys joined by commas.\<close>

fun join_comma :: "string list \<Rightarrow> string" where
  "join_comma [] = []"
| "join_comma [k] = k"
| "join_comma (k # ks) = k @ '','' @ join_comma ks"

subsection \<open>Loading the request body\<close>

text \<open>
  The loop over the declared media types: the first type for which \<open>is\<close> answers a
  truthy string ends the loop, after \<open>mediaType\<close> and \<open>schema\<close> have been stored in
  the request body. The result is \<open>matchedMediaType\<close> (\<open>None\<close> when the loop ran to
  its end) and the request body.
\<close>

fun match_loop :: "matcher \<Rightarrow> string \<Rightarrow> (string \<times> obj) list \<Rightarrow> obj \<Rightarrow> string option \<times> obj" where
  "match_loop is contentType [] rb = (None, rb)"
| "match_loop is contentType ((type, mediaTypeObject) # rest) rb =
     (let matchedMediaType = is contentType type
      in if truthy matchedMediaType
         then (matchedMediaType,
               rb(''mediaType'' \<mapsto> JStr type, ''schema'' \<mapsto> get_prop mediaTypeObject ''schema''))
         else match_loop is contentType rest rb)"

text \<open>
  What the calls of one load did to the parser entries, in order: entry \<open>i\<close> of the
  registry was asked whether it supports a media type, or its \<open>parse\<close> was invoked.
\<close>

datatype event = SupportsCalled nat string | ParseCalled nat

text \<open>
  The body of the \<open>try\<close> block, from entry \<open>i\<close> of the registry on. \<open>None\<close>: the loop
  ended without a return. An error thrown by \<open>supports\<close> or by \<open>parse\<close> leaves the
  block as it is; the \<open>catch\<close> clause is in \<open>loadRequestBodyIfNeeded\<close>.
\<close>

fun try_parsers ::
  "BodyParser list \<Rightarrow> nat \<Rightarrow> string \<Rightarrow> Request \<Rightarrow> obj \<Rightarrow> obj completion option \<times> event list" where
  "try_parsers [] i matchedMediaType request rb = (None, [])"
| "try_parsers (parser # rest) i matchedMediaType request rb =
     (case supports parser matchedMediaType of
        Inl err \<Rightarrow> (Some (Thrown err), [SupportsCalled i matchedMediaType])
      | Inr ok \<Rightarrow>
          if \<not> ok
          then (case try_parsers rest (Suc i) matchedMediaType request rb of
                  (r, tr) \<Rightarrow> (r, SupportsCalled i matchedMediaType # tr))
          else (case parse parser request of
                  Inl err \<Rightarrow>
                    (Some (Thrown err), [SupportsCalled i matchedMediaType, ParseCalled i])
                | Inr parsed \<Rightarrow>
                    (Some (Returned (Object_assign rb parsed)),
                     [SupportsCalled i matchedMediaType, ParseCalled i])))"

text \<open>
  \<open>loadRequestBodyIfNeeded(operationSpec, request, options)\<close>; the third argument is
  only logged. The result is the settled promise and the events of the call. After
  the loop over the declared types, \<open>if (!matchedMediaType)\<close> takes every falsy value
  (\<open>false\<close> and the empty string) to the first 415 error.
\<close>

definition loadRequestBodyIfNeeded ::
  "matcher \<Rightarrow> RequestBodyParser \<Rightarrow> OperationObject \<Rightarrow> Request \<Rightarrow> obj completion \<times> event list" where
  "loadRequestBodyIfNeeded is this operationSpec request =
     (let rb = [''value'' \<mapsto> JUndefined]
      in case requestBody operationSpec of
           None \<Rightarrow> (Returned rb, [])
         | Some spec \<Rightarrow>
            (let contentType = request_contentType request
             in case spec of
                  ReferenceObject r \<Rightarrow>
                    (Thrown (Error ''$ref requestBody is not supported yet.''), [])
                | RequestBodyObject c \<Rightarrow>
                   (let content = declared_content c
                    in case match_loop is contentType content rb of
                         (matchedMediaType, rb') \<Rightarrow>
                          (case (if truthy matchedMediaType then matchedMediaType else None) of
                             None \<Rightarrow>
                               (Thrown (UnsupportedMediaType
                                  (''Content-type '' @ contentType @ '' does not match [''
                                     @ join_comma (map fst content) @ ''].'')), [])
                           | Some m \<Rightarrow>
                              (case try_parsers (parsers this) 0 m request rb' of
                                 (Some (Returned r), tr) \<Rightarrow> (Returned r, tr)
                               | (Some (Thrown err), tr) \<Rightarrow>
                                   (Thrown (RequestBodyParser_normalizeParsingError err), tr)
                               | (None, tr) \<Rightarrow>
                                   (Thrown (UnsupportedMediaType
                                      (''Content-type '' @ m @ '' is not supported.'')), tr))))))"

subsection \<open>Reading the events of a call\<close>

text \<open>The entries whose \<open>parse\<close> was invoked, in order.\<close>

fun parse_calls :: "event list \<Rightarrow> nat list" where
  "parse_calls [] = []"
| "parse_calls (ParseCalled i # tr) = i # parse_calls tr"
| "parse_calls (SupportsCalled i m # tr) = parse_calls tr"

text \<open>The entries \<open>i\<close>, ..., \<open>i + n - 1\<close> were each asked whether they support \<open>m\<close>.\<close>

definition asked :: "string \<Rightarrow> nat \<Rightarrow> nat \<Rightarrow> event list" where
  "asked m i n = map (\<lambda>j. SupportsCalled j m) [i..<i + n]"

text \<open>The message of the error thrown when no declared media type matches.\<close>

definition mismatch_message :: "string \<Rightarrow> string list \<Rightarrow> string" where
  "mismatch_message ct keys =
     ''Content-type '' @ ct @ '' does not match ['' @ join_comma keys @ ''].''"

subsection \<open>Sample inputs\<close>

text \<open>
  Concrete inputs on which the theorems below are evaluated: a matcher that knows a
  handful of media types, middleware factories that store a fixed body or report a
  fixed error, and a few extension entries, operation specs and requests.
\<close>

definition sample_is :: matcher where
  "sample_is v type =
     (if v = type then Some type
      else if type = ''json'' \<and> v = ''application/json'' then Some ''json''
      else if type = ''urlencoded'' \<and> v = ''application/x-www-form-urlencoded''
           then Some ''urlencoded''
      else if type = ''text/*'' \<and> v = ''text/plain'' then Some ''text/plain''
      else None)"

definition storing_mw :: "jsval \<Rightarrow> obj \<Rightarrow> BodyParserWithCallback" where
  "storing_mw v opts = (\<lambda>req. (None, req\<lparr>body := v\<rparr>))"

definition failing_mw :: "HttpError \<Rightarrow> obj \<Rightarrow> BodyParserWithCallback" where
  "failing_mw e opts = (\<lambda>req. (Some e, req))"

definition sample_error :: "int option \<Rightarrow> HttpError" where
  "sample_error sc = \<lparr>errorName = ''SyntaxError'', statusCode = sc, message = ''bad body''\<rparr>"

definition custom_parser :: BodyParser where
  "custom_parser =
     \<lparr>name = Some ''custom'',
      supports = (\<lambda>mediaType. Inr (mediaType = ''application/json'')),
      parse = (\<lambda>request. Inr [''value'' \<mapsto> JStr ''custom'', ''mediaType'' \<mapsto> JStr ''x/custom''])\<rparr>"

definition plain_parser :: BodyParser where
  "plain_parser =
     \<lparr>name = Some ''plain'',
      supports = (\<lambda>mediaType. Inr (mediaType = ''application/json'')),
      parse = (\<lambda>request. Inr [''value'' \<mapsto> JStr ''plain''])\<rparr>"

definition rejecting_parser :: "int option \<Rightarrow> BodyParser" where
  "rejecting_parser sc =
     \<lparr>name = None,
      supports = (\<lambda>mediaType. Inr True),
      parse = (\<lambda>request. Inl (sample_error sc))\<rparr>"

definition throwing_parser :: "int option \<Rightarrow> BodyParser" where
  "throwing_parser sc =
     \<lparr>name = None,
      supports = (\<lambda>mediaType. Inl (sample_error sc)),
      parse = (\<lambda>request. Inr [''value'' \<mapsto> JNull])\<rparr>"

definition json_spec :: OperationObject where
  "json_spec =
     \<lparr>requestBody = Some (RequestBodyObject (Some
        [(''application/json'', [''schema'' \<mapsto> JObj [''type'' \<mapsto> JStr ''string'']])]))\<rparr>"

definition xml_spec :: OperationObject where
  "xml_spec =
     \<lparr>requestBody = Some (RequestBodyObject (Some
        [(''application/xml'', Map.empty), (''image/png'', Map.empty)]))\<rparr>"

definition json_request :: Request where
  "json_request = \<lparr>contentTypeHeader = Some ''application/json'', body = JUndefined\<rparr>"

definition xml_request :: Request where
  "xml_request = \<lparr>contentTypeHeader = Some ''application/xml'', body = JUndefined\<rparr>"

definition sample_options :: obj where
  "sample_options =
     [''limit'' \<mapsto> JStr ''5mb'', ''json'' \<mapsto> JObj [''limit'' \<mapsto> JStr ''10mb'', ''strict'' \<mapsto> JBool False]]"

text \<open>
  A parser object built by the constructor from sample middleware, with the given
  extension entries.
\<close>

definition sample_this :: "BodyParser list \<Rightarrow> RequestBodyParser" where
  "sample_this ext =
     RequestBodyParser_constructor (storing_mw (JStr ''from json'')) (storing_mw (JStr ''from form''))
       (failing_mw (sample_error (Some 500))) sample_is None (Some ext)"

text \<open>
  A matcher that answers as the type-is package does for a wildcard pattern: for
  \<open>image/*\<close> it returns the media type that was tested, not the pattern. With it, an
  operation that accepts \<open>image/*\<close>, a request that sends \<open>image/png\<close>, and a parser
  object with the built-in entries only.
\<close>

definition wildcard_is :: matcher where
  "wildcard_is v type =
     (if v = type then Some type
      else if type = ''image/*'' \<and> take 6 v = ''image/'' then Some v
      else None)"

definition image_spec :: OperationObject where
  "image_spec = \<lparr>requestBody = Some (RequestBodyObject (Some [(''image/*'', Map.empty)]))\<rparr>"

definition png_request :: Request where
  "png_request = \<lparr>contentTypeHeader = Some ''image/png'', body = JUndefined\<rparr>"

definition wildcard_this :: RequestBodyParser where
  "wildcard_this =
     RequestBodyParser_constructor (storing_mw (JStr ''from json'')) (storing_mw (JStr ''from form''))
       (storing_mw (JStr ''from text'')) wildcard_is None None"

section \<open>Properties\<close>

subsection \<open>Option resolution\<close>

lemma getParserOptions_lookup:
  "getParserOptions type options k =
     (if k = ''json'' \<or> k = ''urlencoded'' \<or> k = ''text'' then None
      else case options k of
             Some v \<Rightarrow> Some v
           | None \<Rightarrow> own_props (get_prop options type) k)"
  by (simp add: getParserOptions_def Object_assign2_def Object_assign_def delete_prop_def
      map_add_def split: option.splits)

text \<open>
  C1, as the code has it. The claim puts the format-specific value first; the code
  assigns \<open>options[type]\<close> before \<open>options\<close>, so for every key other than the three
  format names the effective option is the shared (top-level) value when there is
  one, else the value of the format's own sub-object, else the hard-coded default
  (\<open>type\<close> and \<open>limit: '1mb'\<close>, and \<open>extended: true\<close> for urlencoded only). The three
  format names are never keys of the effective options. These are the objects the
  constructor passes to the three factories.
\<close>

theorem C1_shared_then_format_then_default:
  "jsonOptions options k =
     (if k = ''json'' \<or> k = ''urlencoded'' \<or> k = ''text'' then None
      else case options k of
             Some v \<Rightarrow> Some v
           | None \<Rightarrow>
              (case own_props (get_prop options ''json'') k of
                 Some v \<Rightarrow> Some v
               | None \<Rightarrow> [''type'' \<mapsto> JStr ''json'', ''limit'' \<mapsto> JStr ''1mb''] k))
   \<and> urlencodedOptions options k =
     (if k = ''json'' \<or> k = ''urlencoded'' \<or> k = ''text'' then None
      else case options k of
             Some v \<Rightarrow> Some v
           | None \<Rightarrow>
              (case own_props (get_prop options ''urlencoded'') k of
                 Some v \<Rightarrow> Some v
               | None \<Rightarrow> [''type'' \<mapsto> JStr ''urlencoded'', ''extended'' \<mapsto> JBool True,
                           ''limit'' \<mapsto> JStr ''1mb''] k))
   \<and> textOptions options k =
     (if k = ''json'' \<or> k = ''urlencoded'' \<or> k = ''text'' then None
      else case options k of
             Some v \<Rightarrow> Some v
           | None \<Rightarrow>
              (case own_props (get_prop options ''text'') k of
                 Some v \<Rightarrow> Some v
               | None \<Rightarrow> [''type'' \<mapsto> JStr ''text/*'', ''limit'' \<mapsto> JStr ''1mb''] k))
   \<and> jsonParser (RequestBodyParser_constructor mk_json mk_urlencoded mk_text is (Some options) ext)
       = mk_json (jsonOptions options)
   \<and> urlencodedParser (RequestBodyParser_constructor mk_json mk_urlencoded mk_text is (Some options) ext)
       = mk_urlencoded (urlencodedOptions options)
   \<and> textParser (RequestBodyParser_constructor mk_json mk_urlencoded mk_text is (Some options) ext)
       = mk_text (textOptions options)"
  by (simp add: jsonOptions_def urlencodedOptions_def textOptions_def Object_assign_def
      getParserOptions_lookup DEFAULT_LIMIT_def map_add_def RequestBodyParser_constructor_def
      Let_def split: option.splits)

text \<open>
  The same at the sample options \<open>{limit: '5mb', json: {limit: '10mb', strict: false}}\<close>:
  the JSON middleware gets the shared limit, the format's own \<open>strict\<close> and the default
  \<open>type\<close>.
\<close>

theorem C1_sample_options:
  "jsonOptions sample_options ''limit'' = Some (JStr ''5mb'')
   \<and> jsonOptions sample_options ''strict'' = Some (JBool False)
   \<and> jsonOptions sample_options ''type'' = Some (JStr ''json'')
   \<and> jsonOptions sample_options ''json'' = None
   \<and> urlencodedOptions sample_options ''extended'' = Some (JBool True)
   \<and> textOptions sample_options ''limit'' = Some (JStr ''5mb'')"
  using C1_shared_then_format_then_default [of sample_options "''limit''"]
    C1_shared_then_format_then_default [of sample_options "''strict''"]
    C1_shared_then_format_then_default [of sample_options "''type''"]
    C1_shared_then_format_then_default [of sample_options "''json''"]
    C1_shared_then_format_then_default [of sample_options "''extended''"]
  by (simp add: sample_options_def get_prop_def)

text \<open>
  C1 as stated fails: with \<open>limit\<close> both in the \<open>json\<close> sub-object (\<open>'10mb'\<close>) and at the
  top level (\<open>'5mb'\<close>), the JSON middleware is given the top-level value, not the
  format-specific one.
\<close>

theorem C1_format_specific_value_loses:
  "jsonOptions [''limit'' \<mapsto> JStr ''5mb'', ''json'' \<mapsto> JObj [''limit'' \<mapsto> JStr ''10mb'']] ''limit''
     = Some (JStr ''5mb'')
   \<and> jsonOptions [''limit'' \<mapsto> JStr ''5mb'', ''json'' \<mapsto> JObj [''limit'' \<mapsto> JStr ''10mb'']] ''limit''
     \<noteq> [''limit'' \<mapsto> JStr ''10mb''] ''limit''"
  by (simp add: jsonOptions_def Object_assign_def getParserOptions_lookup get_prop_def)

subsection \<open>The two loops and the load as a whole\<close>

lemma match_loop_no_match:
  "\<forall>t\<in>set (map fst content). \<not> truthy (is ct t) \<Longrightarrow> match_loop is ct content rb = (None, rb)"
  by (induction content) (auto simp: Let_def)

lemma match_loop_SomeD:
  "match_loop is ct content rb = (Some m, rb') \<Longrightarrow>
   \<exists>pre type mto post.
     content = pre @ (type, mto) # post \<and>
     (\<forall>t\<in>set (map fst pre). \<not> truthy (is ct t)) \<and>
     is ct type = Some m \<and> m \<noteq> [] \<and>
     rb' = rb(''mediaType'' \<mapsto> JStr type, ''schema'' \<mapsto> get_prop mto ''schema'')"
proof (induction content)
  case Nil
  then show ?case by simp
next
  case (Cons a content)
  obtain type mto where a: "a = (type, mto)" by (cases a)
  show ?case
  proof (cases "truthy (is ct type)")
    case True
    with Cons.prems a have "is ct type = Some m" "m \<noteq> []"
      "rb' = rb(''mediaType'' \<mapsto> JStr type, ''schema'' \<mapsto> get_prop mto ''schema'')"
      by (auto simp: Let_def truthy_def)
    then have "a # content = [] @ (type, mto) # content \<and>
        (\<forall>t\<in>set (map fst []). \<not> truthy (is ct t)) \<and>
        is ct type = Some m \<and> m \<noteq> [] \<and>
        rb' = rb(''mediaType'' \<mapsto> JStr type, ''schema'' \<mapsto> get_prop mto ''schema'')"
      using a by simp
    then show ?thesis by blast
  next
    case False
    with Cons.prems a have "match_loop is ct content rb = (Some m, rb')"
      by (simp add: Let_def)
    from Cons.IH [OF this] obtain pre type' mto' post where
      h: "content = pre @ (type', mto') # post"
         "\<forall>t\<in>set (map fst pre). \<not> truthy (is ct t)"
         "is ct type' = Some m" "m \<noteq> []"
         "rb' = rb(''mediaType'' \<mapsto> JStr type', ''schema'' \<mapsto> get_prop mto' ''schema'')"
      by blast
    have "a # content = (a # pre) @ (type', mto') # post \<and>
        (\<forall>t\<in>set (map fst (a # pre)). \<not> truthy (is ct t)) \<and>
        is ct type' = Some m \<and> m \<noteq> [] \<and>
        rb' = rb(''mediaType'' \<mapsto> JStr type', ''schema'' \<mapsto> get_prop mto' ''schema'')"
      using h a False by simp
    then show ?thesis by blast
  qed
qed

lemma match_loop_first:
  "\<forall>t\<in>set (map fst pre). \<not> truthy (is ct t) \<Longrightarrow> is ct type = Some m \<Longrightarrow> m \<noteq> [] \<Longrightarrow>
   match_loop is ct (pre @ (type, mto) # post) rb =
     (Some m, rb(''mediaType'' \<mapsto> JStr type, ''schema'' \<mapsto> get_prop mto ''schema''))"
  by (induction pre) (auto simp: Let_def truthy_def)

lemma asked_Suc: "SupportsCalled i m # asked m (Suc i) n = asked m i (Suc n)"
  by (simp add: asked_def upt_conv_Cons del: upt_Suc)

lemma asked_0 [simp]: "asked m i 0 = []"
  by (simp add: asked_def)

lemma parse_calls_supports:
  "parse_calls (map (\<lambda>j. SupportsCalled j m) js @ tr) = parse_calls tr"
  by (induction js) simp_all

lemma parse_calls_asked [simp]: "parse_calls (asked m i n @ tr) = parse_calls tr"
  by (simp add: asked_def parse_calls_supports)

lemma try_parsers_skip:
  "\<forall>p\<in>set pre. supports p m = Inr False \<Longrightarrow>
   try_parsers (pre @ ps) i m req rb =
     (case try_parsers ps (i + length pre) m req rb of
        (r, tr) \<Rightarrow> (r, asked m i (length pre) @ tr))"
proof (induction pre arbitrary: i)
  case Nil
  then show ?case by simp
next
  case (Cons p pre)
  then show ?case
    by (simp add: asked_Suc [symmetric] split: prod.splits)
qed

lemma try_parsers_none_support:
  "\<forall>p\<in>set ps. supports p m = Inr False \<Longrightarrow>
   try_parsers ps i m req rb = (None, asked m i (length ps))"
  using try_parsers_skip [of ps m "[]" i req rb] by simp

lemma try_parsers_inv:
  "try_parsers ps i m req rb = (r, tr) \<Longrightarrow>
   (r = None \<and> (\<forall>p\<in>set ps. supports p m = Inr False) \<and> tr = asked m i (length ps))
   \<or> (\<exists>pre p post. ps = pre @ p # post \<and> (\<forall>q\<in>set pre. supports q m = Inr False) \<and>
        ((\<exists>e. supports p m = Inl e \<and> r = Some (Thrown e) \<and>
              tr = asked m i (length pre) @ [SupportsCalled (i + length pre) m])
         \<or> (supports p m = Inr True \<and>
             tr = asked m i (length pre) @
                    [SupportsCalled (i + length pre) m, ParseCalled (i + length pre)] \<and>
             r = Some (case parse p req of
                         Inl e \<Rightarrow> Thrown e
                       | Inr parsed \<Rightarrow> Returned (Object_assign rb parsed)))))"
proof (induction ps arbitrary: i r tr)
  case Nil
  then show ?case by simp
next
  case (Cons p ps)
  show ?case
  proof (cases "supports p m")
    case (Inl e)
    with Cons.prems have "r = Some (Thrown e)" "tr = [SupportsCalled i m]" by auto
    with Inl have "p # ps = [] @ p # ps \<and> (\<forall>q\<in>set []. supports q m = Inr False) \<and>
       supports p m = Inl e \<and> r = Some (Thrown e) \<and>
       tr = asked m i (length ([]::BodyParser list)) @ [SupportsCalled (i + length ([]::BodyParser list)) m]"
      by simp
    then show ?thesis by blast
  next
    case (Inr ok)
    show ?thesis
    proof (cases ok)
      case True
      with Inr Cons.prems have
        "tr = [SupportsCalled i m, ParseCalled i]"
        "r = Some (case parse p req of Inl e \<Rightarrow> Thrown e
                   | Inr parsed \<Rightarrow> Returned (Object_assign rb parsed))"
        by (auto split: sum.splits)
      with Inr True have "p # ps = [] @ p # ps \<and> (\<forall>q\<in>set []. supports q m = Inr False) \<and>
        supports p m = Inr True \<and>
        tr = asked m i (length ([]::BodyParser list)) @
               [SupportsCalled (i + length ([]::BodyParser list)) m,
                ParseCalled (i + length ([]::BodyParser list))] \<and>
        r = Some (case parse p req of Inl e \<Rightarrow> Thrown e
                  | Inr parsed \<Rightarrow> Returned (Object_assign rb parsed))"
        by simp
      then show ?thesis by blast
    next
      case False
      with Inr Cons.prems obtain tr' where
        rec: "try_parsers ps (Suc i) m req rb = (r, tr')" and tr: "tr = SupportsCalled i m # tr'"
        by (auto split: prod.splits)
      from Cons.IH [OF rec] show ?thesis
      proof (elim disjE exE conjE)
        assume "r = None" "\<forall>p\<in>set ps. supports p m = Inr False" "tr' = asked m (Suc i) (length ps)"
        with tr Inr False show ?thesis by (simp add: asked_Suc)
      next
        fix pre q post e
        assume h: "ps = pre @ q # post" "\<forall>q\<in>set pre. supports q m = Inr False"
          "supports q m = Inl e" "r = Some (Thrown e)"
          "tr' = asked m (Suc i) (length pre) @ [SupportsCalled (Suc i + length pre) m]"
        have "p # ps = (p # pre) @ q # post \<and> (\<forall>q\<in>set (p # pre). supports q m = Inr False) \<and>
          supports q m = Inl e \<and> r = Some (Thrown e) \<and>
          tr = asked m i (length (p # pre)) @ [SupportsCalled (i + length (p # pre)) m]"
          using h tr Inr False by (simp add: asked_Suc [symmetric])
        then show ?thesis by blast
      next
        fix pre q post
        assume h: "ps = pre @ q # post" "\<forall>q\<in>set pre. supports q m = Inr False"
          "supports q m = Inr True"
          "tr' = asked m (Suc i) (length pre) @
                   [SupportsCalled (Suc i + length pre) m, ParseCalled (Suc i + length pre)]"
          "r = Some (case parse q req of Inl e \<Rightarrow> Thrown e
                     | Inr parsed \<Rightarrow> Returned (Object_assign rb parsed))"
        have "p # ps = (p # pre) @ q # post \<and> (\<forall>q\<in>set (p # pre). supports q m = Inr False) \<and>
          supports q m = Inr True \<and>
          tr = asked m i (length (p # pre)) @
                 [SupportsCalled (i + length (p # pre)) m, ParseCalled (i + length (p # pre))] \<and>
          r = Some (case parse q req of Inl e \<Rightarrow> Thrown e
                    | Inr parsed \<Rightarrow> Returned (Object_assign rb parsed))"
          using h tr Inr False by (simp add: asked_Suc [symmetric])
        then show ?thesis by blast
      qed
    qed
  qed
qed


lemma normalize_status:
  "statusCode (RequestBodyParser_normalizeParsingError e) =
     (if needs_400 (statusCode e) then Some 400 else statusCode e)"
  by (simp add: RequestBodyParser_normalizeParsingError_def)

lemma load_request_body_object:
  assumes "requestBody spec = Some (RequestBodyObject c)"
    and "match_loop is (request_contentType request) (declared_content c) [''value'' \<mapsto> JUndefined]
           = (mm, rb')"
  shows "loadRequestBodyIfNeeded is this spec request =
     (case mm of
        None \<Rightarrow>
          (Thrown (UnsupportedMediaType
             (''Content-type '' @ request_contentType request @ '' does not match [''
                @ join_comma (map fst (declared_content c)) @ ''].'')), [])
      | Some m \<Rightarrow>
          (case try_parsers (parsers this) 0 m request rb' of
             (Some (Returned r), tr) \<Rightarrow> (Returned r, tr)
           | (Some (Thrown err), tr) \<Rightarrow>
               (Thrown (RequestBodyParser_normalizeParsingError err), tr)
           | (None, tr) \<Rightarrow>
               (Thrown (UnsupportedMediaType (''Content-type '' @ m @ '' is not supported.'')), tr)))"
proof (cases mm)
  case None
  with assms show ?thesis
    by (simp add: loadRequestBodyIfNeeded_def Let_def truthy_def)
next
  case (Some m)
  with assms(2) have "truthy mm"
    using match_loop_SomeD [of "is" "request_contentType request" "declared_content c"
        "[''value'' \<mapsto> JUndefined]" m rb']
    by (auto simp: truthy_def)
  with assms Some show ?thesis
    by (simp add: loadRequestBodyIfNeeded_def Let_def)
qed

lemma sublist_join_comma: "t \<in> set ts \<Longrightarrow> sublist t (join_comma ts)"
proof (induction ts rule: join_comma.induct)
  case 1
  then show ?case by simp
next
  case (2 k)
  then show ?case by simp
next
  case (3 k v va)
  show ?case
  proof (cases "t = k")
    case True
    then show ?thesis using sublist_appendI [of k "[]"] by simp
  next
    case False
    with 3 have "sublist t (join_comma (v # va))" by simp
    then obtain ps ss where "join_comma (v # va) = ps @ t @ ss"
      unfolding sublist_def by blast
    then have "join_comma (k # v # va) = (k @ '','' @ ps) @ t @ ss" by simp
    then show ?thesis unfolding sublist_def by blast
  qed
qed


lemma sublist_mid: "sublist x (a @ x @ b)"
  by (rule sublist_appendI)

lemma sublist_mid2: "sublist x (a @ y @ b @ x @ c)"
proof -
  have "a @ y @ b @ x @ c = (a @ y @ b) @ x @ c" by simp
  then show ?thesis using sublist_appendI [of x "a @ y @ b" c] by simp
qed

lemma mismatch_message_names_type: "sublist ct (mismatch_message ct keys)"
  unfolding mismatch_message_def by (rule sublist_mid)

lemma mismatch_message_lists_keys:
  assumes "t \<in> set keys"
  shows "sublist t (mismatch_message ct keys)"
proof -
  from assms have "sublist t (join_comma keys)" by (rule sublist_join_comma)
  moreover have "sublist (join_comma keys) (mismatch_message ct keys)"
    unfolding mismatch_message_def by (rule sublist_mid2)
  ultimately show ?thesis
    by (rule sublist_order.order_trans)
qed

lemma try_parsers_at:
  assumes "n \<le> length ps" and "\<forall>j<n. supports (ps ! j) m = Inr False"
  shows "try_parsers ps i m req rb =
           (case try_parsers (drop n ps) (i + n) m req rb of
              (r, tr) \<Rightarrow> (r, asked m i n @ tr))"
proof -
  have "\<forall>p\<in>set (take n ps). supports p m = Inr False"
    using assms by (auto simp: in_set_conv_nth)
  from try_parsers_skip [OF this, of "drop n ps" i req rb] assms(1)
  show ?thesis by (simp add: min_def)
qed

lemma try_parsers_first_supporting:
  assumes "n < length ps" and "\<forall>j<n. supports (ps ! j) m = Inr False"
    and "supports (ps ! n) m = Inr True"
  shows "try_parsers ps i m req rb =
           (Some (case parse (ps ! n) req of
                    Inl e \<Rightarrow> Thrown e
                  | Inr parsed \<Rightarrow> Returned (Object_assign rb parsed)),
            asked m i n @ [SupportsCalled (i + n) m, ParseCalled (i + n)])"
proof -
  have d: "drop n ps = ps ! n # drop (Suc n) ps"
    using assms(1) by (simp add: Cons_nth_drop_Suc)
  have "try_parsers (drop n ps) (i + n) m req rb =
      (Some (case parse (ps ! n) req of
               Inl e \<Rightarrow> Thrown e
             | Inr parsed \<Rightarrow> Returned (Object_assign rb parsed)),
       [SupportsCalled (i + n) m, ParseCalled (i + n)])"
    unfolding d using assms(3) by (simp split: sum.splits)
  with try_parsers_at [of n ps m i req rb] assms(1,2) show ?thesis by simp
qed

lemma try_parsers_first_throwing:
  assumes "n < length ps" and "\<forall>j<n. supports (ps ! j) m = Inr False"
    and "supports (ps ! n) m = Inl e"
  shows "try_parsers ps i m req rb =
           (Some (Thrown e), asked m i n @ [SupportsCalled (i + n) m])"
proof -
  have d: "drop n ps = ps ! n # drop (Suc n) ps"
    using assms(1) by (simp add: Cons_nth_drop_Suc)
  have "try_parsers (drop n ps) (i + n) m req rb = (Some (Thrown e), [SupportsCalled (i + n) m])"
    unfolding d using assms(3) by simp
  with try_parsers_at [of n ps m i req rb] assms(1,2) show ?thesis by simp
qed

lemma load_inv:
  assumes "loadRequestBodyIfNeeded is this spec request = (res, tr)"
  shows "tr = [] \<or>
    (\<exists>c m rb' r.
       requestBody spec = Some (RequestBodyObject c) \<and>
       match_loop is (request_contentType request) (declared_content c) [''value'' \<mapsto> JUndefined]
         = (Some m, rb') \<and>
       try_parsers (parsers this) 0 m request rb' = (r, tr) \<and>
       res = (case r of
                Some (Returned x) \<Rightarrow> Returned x
              | Some (Thrown err) \<Rightarrow> Thrown (RequestBodyParser_normalizeParsingError err)
              | None \<Rightarrow> Thrown (UnsupportedMediaType (''Content-type '' @ m @ '' is not supported.''))))"
proof (cases "requestBody spec")
  case None
  with assms show ?thesis by (simp add: loadRequestBodyIfNeeded_def)
next
  case (Some rbs)
  show ?thesis
  proof (cases rbs)
    case (ReferenceObject x)
    with Some assms show ?thesis by (simp add: loadRequestBodyIfNeeded_def)
  next
    case (RequestBodyObject c)
    obtain mm rb' where ml:
      "match_loop is (request_contentType request) (declared_content c) [''value'' \<mapsto> JUndefined]
         = (mm, rb')"
      by (cases "match_loop is (request_contentType request) (declared_content c) [''value'' \<mapsto> JUndefined]")
    have spec: "requestBody spec = Some (RequestBodyObject c)"
      using Some RequestBodyObject by simp
    note l = load_request_body_object [OF spec ml, of this]
    show ?thesis
    proof (cases mm)
      case None
      with l assms show ?thesis by simp
    next
      case (Some m)
      obtain r tr' where tp: "try_parsers (parsers this) 0 m request rb' = (r, tr')"
        by (cases "try_parsers (parsers this) 0 m request rb'")
      have "tr = tr' \<and> res = (case r of
                Some (Returned x) \<Rightarrow> Returned x
              | Some (Thrown err) \<Rightarrow> Thrown (RequestBodyParser_normalizeParsingError err)
              | None \<Rightarrow> Thrown (UnsupportedMediaType (''Content-type '' @ m @ '' is not supported.'')))"
        using l assms Some tp by (auto split: option.splits completion.splits)
      with spec ml Some tp show ?thesis by blast
    qed
  qed
qed

lemma parse_calls_single [simp]:
  "parse_calls (asked m i n @ [SupportsCalled k m', ParseCalled k']) = [k']"
  "parse_calls (asked m i n @ [SupportsCalled k m']) = []"
  "parse_calls (asked m i n) = []"
  using parse_calls_asked [of m i n "[]"] by simp_all

lemma load_parse_called:
  assumes "loadRequestBodyIfNeeded is this spec request = (res, tr)"
    and "i \<in> set (parse_calls tr)"
  shows "\<exists>c m rb'.
       requestBody spec = Some (RequestBodyObject c) \<and>
       match_loop is (request_contentType request) (declared_content c) [''value'' \<mapsto> JUndefined]
         = (Some m, rb') \<and>
       i < length (parsers this) \<and>
       (\<forall>j<i. supports (parsers this ! j) m = Inr False) \<and>
       supports (parsers this ! i) m = Inr True \<and>
       tr = asked m 0 i @ [SupportsCalled i m, ParseCalled i] \<and>
       res = (case parse (parsers this ! i) request of
                Inl e \<Rightarrow> Thrown (RequestBodyParser_normalizeParsingError e)
              | Inr parsed \<Rightarrow> Returned (Object_assign rb' parsed))"
proof -
  from assms(2) have "tr \<noteq> []" by auto
  with load_inv [OF assms(1)] obtain c m rb' r where
    spec: "requestBody spec = Some (RequestBodyObject c)" and
    ml: "match_loop is (request_contentType request) (declared_content c) [''value'' \<mapsto> JUndefined]
         = (Some m, rb')" and
    tp: "try_parsers (parsers this) 0 m request rb' = (r, tr)" and
    res: "res = (case r of
                Some (Returned x) \<Rightarrow> Returned x
              | Some (Thrown err) \<Rightarrow> Thrown (RequestBodyParser_normalizeParsingError err)
              | None \<Rightarrow> Thrown (UnsupportedMediaType (''Content-type '' @ m @ '' is not supported.'')))"
    by blast
  from try_parsers_inv [OF tp] assms(2) obtain pre p post where
    ps: "parsers this = pre @ p # post" and
    pre: "\<forall>q\<in>set pre. supports q m = Inr False" and
    p: "supports p m = Inr True" and
    tr: "tr = asked m 0 (length pre) @
                [SupportsCalled (0 + length pre) m, ParseCalled (0 + length pre)]" and
    r: "r = Some (case parse p request of
                    Inl e \<Rightarrow> Thrown e
                  | Inr parsed \<Rightarrow> Returned (Object_assign rb' parsed))"
    by auto
  from tr assms(2) have i: "i = length pre" by simp
  have "i < length (parsers this)" using ps i by simp
  moreover have "\<forall>j<i. supports (parsers this ! j) m = Inr False"
    using ps i pre by (simp add: nth_append)
  moreover have pi: "parsers this ! i = p" using ps i by simp
  moreover have "tr = asked m 0 i @ [SupportsCalled i m, ParseCalled i]"
    using tr i by simp
  moreover have "res = (case parse (parsers this ! i) request of
                Inl e \<Rightarrow> Thrown (RequestBodyParser_normalizeParsingError e)
              | Inr parsed \<Rightarrow> Returned (Object_assign rb' parsed))"
    using res r pi by (simp split: sum.splits)
  ultimately show ?thesis using spec ml p by auto
qed


subsection \<open>Failures before a parser is chosen\<close>

text \<open>
  C6. When the request's content type (\<open>application/json\<close> when the header is absent
  or empty) matches none of the declared media types (the two defaults when the
  content map is empty or absent), the load fails with the UnsupportedMediaType
  error of status 415 whose message is
  \<open>Content-type <content type> does not match [<declared types, comma separated>].\<close>:
  it contains the content type and every declared type, and no parser entry has
  been asked or invoked.
\<close>

theorem C6_no_declared_type_matches:
  assumes "requestBody spec = Some (RequestBodyObject c)"
    and "\<forall>t\<in>set (map fst (declared_content c)). \<not> truthy (is (request_contentType request) t)"
  shows "loadRequestBodyIfNeeded is this spec request =
           (Thrown (UnsupportedMediaType
              (''Content-type '' @ request_contentType request @ '' does not match [''
                 @ join_comma (map fst (declared_content c)) @ ''].'')), [])
         \<and> (\<exists>err. fst (loadRequestBodyIfNeeded is this spec request) = Thrown err
               \<and> errorName err = ''UnsupportedMediaTypeError''
               \<and> statusCode err = Some 415
               \<and> sublist (request_contentType request) (message err)
               \<and> (\<forall>t\<in>set (map fst (declared_content c)). sublist t (message err)))
         \<and> parse_calls (snd (loadRequestBodyIfNeeded is this spec request)) = []"
proof -
  let ?ct = "request_contentType request"
  let ?keys = "map fst (declared_content c)"
  have m: "match_loop is ?ct (declared_content c) [''value'' \<mapsto> JUndefined]
             = (None, [''value'' \<mapsto> JUndefined])"
    using assms(2) by (rule match_loop_no_match)
  have res: "loadRequestBodyIfNeeded is this spec request =
      (Thrown (UnsupportedMediaType (mismatch_message ?ct ?keys)), [])"
    using load_request_body_object [OF assms(1) m] by (simp add: mismatch_message_def)
  have msg: "message (UnsupportedMediaType (mismatch_message ?ct ?keys)) = mismatch_message ?ct ?keys"
    "statusCode (UnsupportedMediaType (mismatch_message ?ct ?keys)) = Some 415"
    "errorName (UnsupportedMediaType (mismatch_message ?ct ?keys)) = ''UnsupportedMediaTypeError''"
    by (simp_all add: UnsupportedMediaType_def)
  have "\<exists>err. fst (loadRequestBodyIfNeeded is this spec request) = Thrown err
               \<and> errorName err = ''UnsupportedMediaTypeError''
               \<and> statusCode err = Some 415
               \<and> sublist ?ct (message err)
               \<and> (\<forall>t\<in>set ?keys. sublist t (message err))"
    using res msg mismatch_message_names_type [of ?ct ?keys]
      mismatch_message_lists_keys [of _ ?keys ?ct] by (simp del: set_map)
  with res show ?thesis
    by (simp add: mismatch_message_def del: set_map)
qed

text \<open>
  C6 at a sample input: the operation accepts \<open>application/xml\<close> and \<open>image/png\<close>, the
  request is \<open>application/json\<close>.
\<close>

theorem C6_sample_mismatch:
  "requestBody xml_spec = Some (RequestBodyObject (Some
      [(''application/xml'', Map.empty), (''image/png'', Map.empty)]))
   \<and> loadRequestBodyIfNeeded sample_is (sample_this [custom_parser]) xml_spec json_request =
       (Thrown (UnsupportedMediaType
          ''Content-type application/json does not match [application/xml,image/png].''), [])
   \<and> statusCode (UnsupportedMediaType
          ''Content-type application/json does not match [application/xml,image/png].'') = Some 415"
proof -
  have spec: "requestBody xml_spec = Some (RequestBodyObject (Some
      [(''application/xml'', Map.empty), (''image/png'', Map.empty)]))"
    by (simp add: xml_spec_def)
  have ct: "request_contentType json_request = ''application/json''"
    by (simp add: request_contentType_def getContentType_def json_request_def)
  have dc: "declared_content (Some [(''application/xml'', Map.empty), (''image/png'', Map.empty)])
      = [(''application/xml'', Map.empty), (''image/png'', Map.empty)]"
    by (simp add: declared_content_def)
  have none: "\<forall>t\<in>set (map fst (declared_content (Some
      [(''application/xml'', Map.empty), (''image/png'', Map.empty)]))).
      \<not> truthy (sample_is (request_contentType json_request) t)"
    unfolding dc ct by (simp add: sample_is_def truthy_def)
  from C6_no_declared_type_matches
    [of xml_spec "Some [(''application/xml'', Map.empty), (''image/png'', Map.empty)]"
        sample_is json_request "sample_this [custom_parser]", OF spec none]
  show ?thesis
    unfolding dc ct using spec by (simp add: UnsupportedMediaType_def)
qed

subsection \<open>Evaluating the sample inputs\<close>

lemma json_spec_body:
  "requestBody json_spec = Some (RequestBodyObject (Some
     [(''application/json'', [''schema'' \<mapsto> JObj [''type'' \<mapsto> JStr ''string'']])]))"
  by (simp add: json_spec_def)

lemma json_spec_match:
  "match_loop sample_is (request_contentType json_request)
     (declared_content (Some
        [(''application/json'', [''schema'' \<mapsto> JObj [''type'' \<mapsto> JStr ''string'']])]))
     [''value'' \<mapsto> JUndefined]
   = (Some ''application/json'',
      [''value'' \<mapsto> JUndefined, ''mediaType'' \<mapsto> JStr ''application/json'',
       ''schema'' \<mapsto> JObj [''type'' \<mapsto> JStr ''string'']])"
  by (simp add: request_contentType_def getContentType_def json_request_def declared_content_def
      sample_is_def truthy_def get_prop_def)

lemma sample_this_parsers:
  "parsers (sample_this ext) =
     ext @ builtin_parsers sample_is
       (storing_mw (JStr ''from json'') (jsonOptions Map.empty))
       (storing_mw (JStr ''from form'') (urlencodedOptions Map.empty))
       (failing_mw (sample_error (Some 500)) (textOptions Map.empty))"
  by (simp add: sample_this_def RequestBodyParser_constructor_def Let_def)

lemma sample_load_rejecting:
  "loadRequestBodyIfNeeded sample_is (sample_this (rejecting_parser sc # ext)) json_spec json_request =
     (Thrown (RequestBodyParser_normalizeParsingError (sample_error sc)),
      [SupportsCalled 0 ''application/json'', ParseCalled 0])"
proof -
  have "try_parsers (parsers (sample_this (rejecting_parser sc # ext))) 0 ''application/json''
      json_request
      [''value'' \<mapsto> JUndefined, ''mediaType'' \<mapsto> JStr ''application/json'',
       ''schema'' \<mapsto> JObj [''type'' \<mapsto> JStr ''string'']]
    = (Some (Thrown (sample_error sc)), [SupportsCalled 0 ''application/json'', ParseCalled 0])"
    by (simp add: sample_this_parsers rejecting_parser_def)
  with load_request_body_object [OF json_spec_body json_spec_match,
      of "sample_this (rejecting_parser sc # ext)"]
  show ?thesis by simp
qed

lemma sample_load_first_extension:
  assumes "supports p ''application/json'' = Inr True" and "parse p json_request = Inr parsed"
  shows "loadRequestBodyIfNeeded sample_is (sample_this (p # ext)) json_spec json_request =
     (Returned (Object_assign
        [''value'' \<mapsto> JUndefined, ''mediaType'' \<mapsto> JStr ''application/json'',
         ''schema'' \<mapsto> JObj [''type'' \<mapsto> JStr ''string'']] parsed),
      [SupportsCalled 0 ''application/json'', ParseCalled 0])"
proof -
  have "try_parsers (parsers (sample_this (p # ext))) 0 ''application/json'' json_request
      [''value'' \<mapsto> JUndefined, ''mediaType'' \<mapsto> JStr ''application/json'',
       ''schema'' \<mapsto> JObj [''type'' \<mapsto> JStr ''string'']]
    = (Some (Returned (Object_assign
        [''value'' \<mapsto> JUndefined, ''mediaType'' \<mapsto> JStr ''application/json'',
         ''schema'' \<mapsto> JObj [''type'' \<mapsto> JStr ''string'']] parsed)),
       [SupportsCalled 0 ''application/json'', ParseCalled 0])"
    using assms by (simp add: sample_this_parsers)
  with load_request_body_object [OF json_spec_body json_spec_match, of "sample_this (p # ext)"]
  show ?thesis by simp
qed

text \<open>
  C9. When the request body of the operation is a reference object, the load fails
  at once with the plain error \<open>$ref requestBody is not supported yet.\<close> (no status
  code): whatever the matcher, the registry and the request are, no media type has
  been matched and no parser entry has been asked or invoked.
\<close>

theorem C9_reference_request_body_rejected:
  assumes "requestBody spec = Some (ReferenceObject ref)"
  shows "loadRequestBodyIfNeeded is this spec request =
           (Thrown (Error ''$ref requestBody is not supported yet.''), [])
         \<and> errorName (Error ''$ref requestBody is not supported yet.'') = ''Error''
         \<and> statusCode (Error ''$ref requestBody is not supported yet.'') = None
         \<and> parse_calls (snd (loadRequestBodyIfNeeded is this spec request)) = []"
  using assms by (simp add: loadRequestBodyIfNeeded_def Error_def)

text \<open>
  C9 at a sample reference, once with the sample matcher and once with a matcher that
  accepts everything.
\<close>

theorem C9_sample_reference:
  "loadRequestBodyIfNeeded sample_is (sample_this [custom_parser])
      \<lparr>requestBody = Some (ReferenceObject ''#/components/requestBodies/Pet'')\<rparr> json_request =
     (Thrown (Error ''$ref requestBody is not supported yet.''), [])
   \<and> loadRequestBodyIfNeeded (\<lambda>v t. Some t) (sample_this [custom_parser])
      \<lparr>requestBody = Some (ReferenceObject ''#/components/requestBodies/Pet'')\<rparr> xml_request =
     (Thrown (Error ''$ref requestBody is not supported yet.''), [])"
  using C9_reference_request_body_rejected
      [of "\<lparr>requestBody = Some (ReferenceObject ''#/components/requestBodies/Pet'')\<rparr>"
          "''#/components/requestBodies/Pet''" sample_is "sample_this [custom_parser]" json_request]
    C9_reference_request_body_rejected
      [of "\<lparr>requestBody = Some (ReferenceObject ''#/components/requestBodies/Pet'')\<rparr>"
          "''#/components/requestBodies/Pet''" "\<lambda>v t. Some t" "sample_this [custom_parser]" xml_request]
  by simp





subsection \<open>Choosing the parser\<close>

lemma constructor_parsers:
  "parsers (RequestBodyParser_constructor mk_json mk_urlencoded mk_text is options (Some ext)) =
     ext @ builtin_parsers is
       (jsonParser (RequestBodyParser_constructor mk_json mk_urlencoded mk_text is options (Some ext)))
       (urlencodedParser (RequestBodyParser_constructor mk_json mk_urlencoded mk_text is options (Some ext)))
       (textParser (RequestBodyParser_constructor mk_json mk_urlencoded mk_text is options (Some ext)))"
  by (simp add: RequestBodyParser_constructor_def Let_def)

lemma builtin_parsers_names:
  "map name (builtin_parsers is jp up tp) = [Some ''json'', Some ''urlencoded'', Some ''text'']"
  by (simp add: builtin_parsers_def)

text \<open>
  C4. The registry built by the constructor is the extension entries followed by
  the built-in entries json, urlencoded and text. When an extension entry supports
  the matched media type, every entry whose \<open>parse\<close> the load invokes is an extension
  entry at or before it, so no built-in \<open>parse\<close> is invoked; and when it is the first
  entry whose \<open>supports\<close> answers true (the entries before it answer false), its
  \<open>parse\<close> is the one invoked: the load settles with that parse result (its error
  normalized, or its fields merged into the request body), whatever the built-in
  entries support.
\<close>

theorem C4_extension_entries_before_builtins:
  assumes "requestBody spec = Some (RequestBodyObject c)"
    and "match_loop is (request_contentType request) (declared_content c) [''value'' \<mapsto> JUndefined]
           = (Some m, rb')"
    and "this = RequestBodyParser_constructor mk_json mk_urlencoded mk_text is options (Some ext)"
    and "k < length ext"
    and "supports (ext ! k) m = Inr True"
  shows "parsers this =
           ext @ builtin_parsers is (jsonParser this) (urlencodedParser this) (textParser this)
         \<and> map name (builtin_parsers is (jsonParser this) (urlencodedParser this) (textParser this))
             = [Some ''json'', Some ''urlencoded'', Some ''text'']
         \<and> (\<forall>i\<in>set (parse_calls (snd (loadRequestBodyIfNeeded is this spec request))).
               i \<le> k \<and> i < length ext \<and> parsers this ! i = ext ! i)
         \<and> ((\<forall>j<k. supports (ext ! j) m = Inr False) \<longrightarrow>
               loadRequestBodyIfNeeded is this spec request =
                 (case parse (ext ! k) request of
                    Inl e \<Rightarrow> Thrown (RequestBodyParser_normalizeParsingError e)
                  | Inr parsed \<Rightarrow> Returned (Object_assign rb' parsed),
                  asked m 0 k @ [SupportsCalled k m, ParseCalled k])
               \<and> parse_calls (snd (loadRequestBodyIfNeeded is this spec request)) = [k])"
proof -
  have ps: "parsers this =
      ext @ builtin_parsers is (jsonParser this) (urlencodedParser this) (textParser this)"
    unfolding assms(3) by (rule constructor_parsers)
  have k: "k < length (parsers this)" "parsers this ! k = ext ! k"
    using ps assms(4) by (simp_all add: nth_append)
  have ext_only: "i \<le> k \<and> i < length ext \<and> parsers this ! i = ext ! i"
    if "i \<in> set (parse_calls (snd (loadRequestBodyIfNeeded is this spec request)))" for i
  proof -
    from load_parse_called [OF surjective_pairing that] obtain c' m' rb'' where
      spec': "requestBody spec = Some (RequestBodyObject c')" and
      ml': "match_loop is (request_contentType request) (declared_content c')
              [''value'' \<mapsto> JUndefined] = (Some m', rb'')" and
      before: "\<forall>j<i. supports (parsers this ! j) m' = Inr False"
      by (elim exE conjE)
    from spec' assms(1) have "c' = c" by simp
    with ml' assms(2) have "m' = m" by simp
    have "i \<le> k"
    proof (rule ccontr)
      assume "\<not> i \<le> k"
      then have "k < i" by simp
      with before have "supports (parsers this ! k) m' = Inr False" by simp
      with k(2) assms(5) \<open>m' = m\<close> show False by simp
    qed
    moreover from this assms(4) have "i < length ext" by simp
    moreover from this ps have "parsers this ! i = ext ! i" by (simp add: nth_append)
    ultimately show ?thesis by simp
  qed
  have first: "loadRequestBodyIfNeeded is this spec request =
                 (case parse (ext ! k) request of
                    Inl e \<Rightarrow> Thrown (RequestBodyParser_normalizeParsingError e)
                  | Inr parsed \<Rightarrow> Returned (Object_assign rb' parsed),
                  asked m 0 k @ [SupportsCalled k m, ParseCalled k])
               \<and> parse_calls (snd (loadRequestBodyIfNeeded is this spec request)) = [k]"
    if none: "\<forall>j<k. supports (ext ! j) m = Inr False"
  proof -
    have before: "\<forall>j<k. supports (parsers this ! j) m = Inr False"
      using ps assms(4) none by (simp add: nth_append)
    have tp: "try_parsers (parsers this) 0 m request rb' =
        (Some (case parse (ext ! k) request of
                 Inl e \<Rightarrow> Thrown e
               | Inr parsed \<Rightarrow> Returned (Object_assign rb' parsed)),
         asked m 0 k @ [SupportsCalled k m, ParseCalled k])"
      using try_parsers_first_supporting [OF k(1) before, of 0 request rb'] assms(5) k(2) by simp
    have "loadRequestBodyIfNeeded is this spec request =
               (case parse (ext ! k) request of
                  Inl e \<Rightarrow> Thrown (RequestBodyParser_normalizeParsingError e)
                | Inr parsed \<Rightarrow> Returned (Object_assign rb' parsed),
                asked m 0 k @ [SupportsCalled k m, ParseCalled k])"
      using load_request_body_object [OF assms(1,2), of this] tp
      by (simp split: sum.splits)
    then show ?thesis by simp
  qed
  from ps builtin_parsers_names ext_only first show ?thesis
    by blast
qed

text \<open>
  C4 at a custom entry that claims \<open>application/json\<close>: the built-in JSON entry
  (entry 1 of the registry) supports the type as well, and the custom entry is the
  one that parses.
\<close>

theorem C4_sample_custom_json_parser:
  "supports (parsers (sample_this [custom_parser]) ! 1) ''application/json'' = Inr True
   \<and> name (parsers (sample_this [custom_parser]) ! 1) = Some ''json''
   \<and> snd (loadRequestBodyIfNeeded sample_is (sample_this [custom_parser]) json_spec json_request)
       = [SupportsCalled 0 ''application/json'', ParseCalled 0]
   \<and> (case fst (loadRequestBodyIfNeeded sample_is (sample_this [custom_parser]) json_spec json_request) of
         Returned r \<Rightarrow> r ''value'' = Some (JStr ''custom'')
       | Thrown e \<Rightarrow> False)"
proof -
  have h: "0 < length [custom_parser]"
    "supports ([custom_parser] ! 0) ''application/json'' = Inr True"
    by (simp_all add: custom_parser_def)
  have b: "supports (parsers (sample_this [custom_parser]) ! 1) ''application/json'' = Inr True"
    "name (parsers (sample_this [custom_parser]) ! 1) = Some ''json''"
    by (simp_all add: sample_this_parsers builtin_parsers_def sample_is_def truthy_def)
  from C4_extension_entries_before_builtins
      [OF json_spec_body json_spec_match sample_this_def [of "[custom_parser]"] h]
  have "loadRequestBodyIfNeeded sample_is (sample_this [custom_parser]) json_spec json_request =
      (case parse ([custom_parser] ! 0) json_request of
         Inl e \<Rightarrow> Thrown (RequestBodyParser_normalizeParsingError e)
       | Inr parsed \<Rightarrow> Returned (Object_assign
           [''value'' \<mapsto> JUndefined, ''mediaType'' \<mapsto> JStr ''application/json'',
            ''schema'' \<mapsto> JObj [''type'' \<mapsto> JStr ''string'']] parsed),
       asked ''application/json'' 0 0 @ [SupportsCalled 0 ''application/json'', ParseCalled 0])"
    by simp
  with b show ?thesis
    by (simp add: custom_parser_def Object_assign_def)
qed

text \<open>
  C5. In every load at most one \<open>parse\<close> is invoked. When entry \<open>i\<close> is invoked, the
  events of the call are the capability checks of the entries up to \<open>i\<close> followed by
  that one invocation, with nothing after it; and when that \<open>parse\<close> fails, the load
  fails with its (normalized) error.
\<close>

theorem C5_at_most_one_parse_invoked:
  "length (parse_calls (snd (loadRequestBodyIfNeeded is this spec request))) \<le> 1
   \<and> (\<forall>i. i \<in> set (parse_calls (snd (loadRequestBodyIfNeeded is this spec request))) \<longrightarrow>
         (\<exists>m. snd (loadRequestBodyIfNeeded is this spec request)
                 = asked m 0 i @ [SupportsCalled i m, ParseCalled i])
         \<and> (\<forall>e. parse (parsers this ! i) request = Inl e \<longrightarrow>
               fst (loadRequestBodyIfNeeded is this spec request)
                 = Thrown (RequestBodyParser_normalizeParsingError e)))"
proof -
  obtain res tr where l: "loadRequestBodyIfNeeded is this spec request = (res, tr)"
    by (cases "loadRequestBodyIfNeeded is this spec request")
  have one: "(\<exists>m. tr = asked m 0 i @ [SupportsCalled i m, ParseCalled i])
         \<and> (\<forall>e. parse (parsers this ! i) request = Inl e \<longrightarrow>
               res = Thrown (RequestBodyParser_normalizeParsingError e))"
    if "i \<in> set (parse_calls tr)" for i
    using load_parse_called [OF l that] by auto
  have "length (parse_calls tr) \<le> 1"
  proof (cases "parse_calls tr")
    case Nil
    then show ?thesis by simp
  next
    case (Cons i rest)
    then have "i \<in> set (parse_calls tr)" by simp
    from one [OF this] obtain m where "tr = asked m 0 i @ [SupportsCalled i m, ParseCalled i]"
      by blast
    then show ?thesis by simp
  qed
  with one l show ?thesis by simp
qed

text \<open>
  C5 at a registry whose first entry supports everything and fails, followed by an
  entry that supports \<open>application/json\<close> too: the second entry is never asked.
\<close>

theorem C5_sample_failure_not_retried:
  "parsers (sample_this [rejecting_parser (Some 500), plain_parser]) ! 1 = plain_parser
   \<and> supports plain_parser ''application/json'' = Inr True
   \<and> loadRequestBodyIfNeeded sample_is (sample_this [rejecting_parser (Some 500), plain_parser])
       json_spec json_request =
     (Thrown \<lparr>errorName = ''SyntaxError'', statusCode = Some 400, message = ''bad body''\<rparr>,
      [SupportsCalled 0 ''application/json'', ParseCalled 0])
   \<and> length (parse_calls (snd (loadRequestBodyIfNeeded sample_is
        (sample_this [rejecting_parser (Some 500), plain_parser]) json_spec json_request))) \<le> 1"
  using C5_at_most_one_parse_invoked
      [of sample_is "sample_this [rejecting_parser (Some 500), plain_parser]" json_spec json_request]
  by (simp add: sample_load_rejecting sample_this_parsers plain_parser_def
      RequestBodyParser_normalizeParsingError_def needs_400_def sample_error_def)

text \<open>
  C7, as the code has it. When a declared media type matches and every entry of the
  registry answers that it does not support \<open>matchedMediaType\<close>, the load fails with
  the UnsupportedMediaType error of status 415 whose message is
  \<open>Content-type <matchedMediaType> is not supported.\<close>, where \<open>matchedMediaType\<close> is the
  string the matcher returned for the first declared type that matches, the type
  recorded as \<open>mediaType\<close>. The message holds that one string and not the list of
  declared types; it names the declared pattern when the matcher returns the
  pattern. Every entry has been asked and none invoked.
\<close>

theorem C7_message_names_matcher_result:
  assumes "requestBody spec = Some (RequestBodyObject c)"
    and "match_loop is (request_contentType request) (declared_content c) [''value'' \<mapsto> JUndefined]
           = (Some m, rb')"
    and "\<forall>p\<in>set (parsers this). supports p m = Inr False"
  shows "loadRequestBodyIfNeeded is this spec request =
           (Thrown (UnsupportedMediaType (''Content-type '' @ m @ '' is not supported.'')),
            asked m 0 (length (parsers this)))
         \<and> errorName (UnsupportedMediaType (''Content-type '' @ m @ '' is not supported.''))
             = ''UnsupportedMediaTypeError''
         \<and> statusCode (UnsupportedMediaType (''Content-type '' @ m @ '' is not supported.''))
             = Some 415
         \<and> message (UnsupportedMediaType (''Content-type '' @ m @ '' is not supported.''))
             = ''Content-type '' @ m @ '' is not supported.''
         \<and> (\<exists>pre type mto post.
               declared_content c = pre @ (type, mto) # post
               \<and> (\<forall>t\<in>set (map fst pre). \<not> truthy (is (request_contentType request) t))
               \<and> is (request_contentType request) type = Some m
               \<and> m \<noteq> []
               \<and> rb' ''mediaType'' = Some (JStr type))
         \<and> parse_calls (snd (loadRequestBodyIfNeeded is this spec request)) = []"
proof -
  have tp: "try_parsers (parsers this) 0 m request rb' = (None, asked m 0 (length (parsers this)))"
    using assms(3) by (rule try_parsers_none_support)
  have res: "loadRequestBodyIfNeeded is this spec request =
           (Thrown (UnsupportedMediaType (''Content-type '' @ m @ '' is not supported.'')),
            asked m 0 (length (parsers this)))"
    using load_request_body_object [OF assms(1,2), of this] tp by simp
  from match_loop_SomeD [OF assms(2)] obtain pre type mto post where
    h: "declared_content c = pre @ (type, mto) # post"
    "\<forall>t\<in>set (map fst pre). \<not> truthy (is (request_contentType request) t)"
    "is (request_contentType request) type = Some m"
    "m \<noteq> []"
    "rb' = [''value'' \<mapsto> JUndefined, ''mediaType'' \<mapsto> JStr type, ''schema'' \<mapsto> get_prop mto ''schema'']"
    by (elim exE conjE)
  from h(5) have "rb' ''mediaType'' = Some (JStr type)" by simp
  with h(1-4) have ex: "\<exists>pre type mto post.
               declared_content c = pre @ (type, mto) # post
               \<and> (\<forall>t\<in>set (map fst pre). \<not> truthy (is (request_contentType request) t))
               \<and> is (request_contentType request) type = Some m
               \<and> m \<noteq> []
               \<and> rb' ''mediaType'' = Some (JStr type)"
    by (intro exI conjI)
  have props: "errorName (UnsupportedMediaType (''Content-type '' @ m @ '' is not supported.''))
             = ''UnsupportedMediaTypeError''"
    "statusCode (UnsupportedMediaType (''Content-type '' @ m @ '' is not supported.'')) = Some 415"
    "message (UnsupportedMediaType (''Content-type '' @ m @ '' is not supported.''))
             = ''Content-type '' @ m @ '' is not supported.''"
    by (simp_all add: UnsupportedMediaType_def)
  have pc: "parse_calls (snd (loadRequestBodyIfNeeded is this spec request)) = []"
    unfolding res by simp
  from res props ex pc show ?thesis by (intro conjI)
qed

lemma image_spec_match:
  "match_loop wildcard_is (request_contentType png_request)
     (declared_content (Some [(''image/*'', Map.empty)])) [''value'' \<mapsto> JUndefined]
   = (Some ''image/png'',
      [''value'' \<mapsto> JUndefined, ''mediaType'' \<mapsto> JStr ''image/*'', ''schema'' \<mapsto> JUndefined])"
  by (simp add: request_contentType_def getContentType_def png_request_def declared_content_def
      wildcard_is_def truthy_def get_prop_def)

lemma wildcard_this_parsers:
  "length (parsers wildcard_this) = 3"
  "\<forall>p\<in>set (parsers wildcard_this). supports p ''image/png'' = Inr False"
  by (simp_all add: wildcard_this_def RequestBodyParser_constructor_def builtin_parsers_def
      wildcard_is_def truthy_def Let_def)

lemma wildcard_load:
  "loadRequestBodyIfNeeded wildcard_is wildcard_this image_spec png_request =
     (Thrown (UnsupportedMediaType ''Content-type image/png is not supported.''),
      [SupportsCalled 0 ''image/png'', SupportsCalled 1 ''image/png'', SupportsCalled 2 ''image/png''])"
proof -
  have spec: "requestBody image_spec = Some (RequestBodyObject (Some [(''image/*'', Map.empty)]))"
    by (simp add: image_spec_def)
  have tp: "try_parsers (parsers wildcard_this) 0 ''image/png'' png_request
      [''value'' \<mapsto> JUndefined, ''mediaType'' \<mapsto> JStr ''image/*'', ''schema'' \<mapsto> JUndefined]
    = (None, asked ''image/png'' 0 (length (parsers wildcard_this)))"
    using wildcard_this_parsers(2) by (rule try_parsers_none_support)
  have a: "asked ''image/png'' 0 3 =
      [SupportsCalled 0 ''image/png'', SupportsCalled 1 ''image/png'', SupportsCalled 2 ''image/png'']"
    by (simp add: asked_def upt_rec)
  from load_request_body_object [OF spec image_spec_match, of wildcard_this] tp
  show ?thesis by (simp add: wildcard_this_parsers(1) a)
qed

text \<open>
  C7 at two sample inputs: \<open>application/xml\<close> is declared and sent, and \<open>image/*\<close> is
  declared and \<open>image/png\<close> sent; none of the three built-in entries supports either.
\<close>

theorem C7_sample_unsupported:
  "requestBody xml_spec = Some (RequestBodyObject (Some
      [(''application/xml'', Map.empty), (''image/png'', Map.empty)]))
   \<and> loadRequestBodyIfNeeded sample_is (sample_this []) xml_spec xml_request =
       (Thrown (UnsupportedMediaType ''Content-type application/xml is not supported.''),
        [SupportsCalled 0 ''application/xml'', SupportsCalled 1 ''application/xml'',
         SupportsCalled 2 ''application/xml''])
   \<and> loadRequestBodyIfNeeded wildcard_is wildcard_this image_spec png_request =
       (Thrown (UnsupportedMediaType ''Content-type image/png is not supported.''),
        [SupportsCalled 0 ''image/png'', SupportsCalled 1 ''image/png'',
         SupportsCalled 2 ''image/png''])"
proof -
  have spec: "requestBody xml_spec = Some (RequestBodyObject (Some
      [(''application/xml'', Map.empty), (''image/png'', Map.empty)]))"
    by (simp add: xml_spec_def)
  have ct: "request_contentType xml_request = ''application/xml''"
    by (simp add: request_contentType_def getContentType_def xml_request_def)
  have dc: "declared_content (Some [(''application/xml'', Map.empty), (''image/png'', Map.empty)])
      = [(''application/xml'', Map.empty), (''image/png'', Map.empty)]"
    by (simp add: declared_content_def)
  have ml: "match_loop sample_is (request_contentType xml_request)
      (declared_content (Some [(''application/xml'', Map.empty), (''image/png'', Map.empty)]))
      [''value'' \<mapsto> JUndefined]
     = (Some ''application/xml'',
        [''value'' \<mapsto> JUndefined, ''mediaType'' \<mapsto> JStr ''application/xml'',
         ''schema'' \<mapsto> JUndefined])"
    unfolding dc ct by (simp add: sample_is_def truthy_def get_prop_def)
  have ps: "length (parsers (sample_this [])) = 3"
    by (simp add: sample_this_def RequestBodyParser_constructor_def builtin_parsers_def Let_def)
  have none: "\<forall>p\<in>set (parsers (sample_this [])). supports p ''application/xml'' = Inr False"
    by (simp add: sample_this_def RequestBodyParser_constructor_def builtin_parsers_def
        sample_is_def truthy_def Let_def)
  have a: "asked ''application/xml'' 0 3 =
      [SupportsCalled 0 ''application/xml'', SupportsCalled 1 ''application/xml'',
       SupportsCalled 2 ''application/xml'']"
    "asked ''image/png'' 0 3 =
      [SupportsCalled 0 ''image/png'', SupportsCalled 1 ''image/png'', SupportsCalled 2 ''image/png'']"
    by (simp_all add: asked_def upt_rec)
  have ispec: "requestBody image_spec = Some (RequestBodyObject (Some [(''image/*'', Map.empty)]))"
    by (simp add: image_spec_def)
  have x: "loadRequestBodyIfNeeded sample_is (sample_this []) xml_spec xml_request =
       (Thrown (UnsupportedMediaType ''Content-type application/xml is not supported.''),
        [SupportsCalled 0 ''application/xml'', SupportsCalled 1 ''application/xml'',
         SupportsCalled 2 ''application/xml''])"
    using C7_message_names_matcher_result
      [of xml_spec "Some [(''application/xml'', Map.empty), (''image/png'', Map.empty)]"
        sample_is xml_request "''application/xml''" _ "sample_this []", OF spec ml none]
    unfolding ps a by simp
  have i: "loadRequestBodyIfNeeded wildcard_is wildcard_this image_spec png_request =
       (Thrown (UnsupportedMediaType ''Content-type image/png is not supported.''),
        [SupportsCalled 0 ''image/png'', SupportsCalled 1 ''image/png'',
         SupportsCalled 2 ''image/png''])"
    using C7_message_names_matcher_result
      [of image_spec "Some [(''image/*'', Map.empty)]" wildcard_is png_request "''image/png''" _
        wildcard_this, OF ispec image_spec_match wildcard_this_parsers(2)]
    unfolding wildcard_this_parsers(1) a by simp
  from spec x i show ?thesis by (intro conjI)
qed

text \<open>
  C7 as stated fails where the matcher returns the tested media type for a wildcard
  pattern: \<open>image/*\<close> is the declared pattern that matched and is recorded as
  \<open>mediaType\<close>, no entry supports \<open>image/png\<close>, and the message is
  \<open>Content-type image/png is not supported.\<close>, in which the pattern \<open>image/*\<close> does
  not occur.
\<close>

theorem C7_message_names_content_type_not_pattern:
  "snd (match_loop wildcard_is (request_contentType png_request)
          (declared_content (Some [(''image/*'', Map.empty)])) [''value'' \<mapsto> JUndefined])
      ''mediaType'' = Some (JStr ''image/*'')
   \<and> loadRequestBodyIfNeeded wildcard_is wildcard_this image_spec png_request =
       (Thrown (UnsupportedMediaType ''Content-type image/png is not supported.''),
        [SupportsCalled 0 ''image/png'', SupportsCalled 1 ''image/png'',
         SupportsCalled 2 ''image/png''])
   \<and> message (UnsupportedMediaType ''Content-type image/png is not supported.'')
       = ''Content-type image/png is not supported.''
   \<and> \<not> sublist ''image/*'' ''Content-type image/png is not supported.''"
proof -
  have "\<not> sublist ''image/*'' ''Content-type image/png is not supported.''"
  proof
    assume "sublist ''image/*'' ''Content-type image/png is not supported.''"
    then have "set ''image/*'' \<subseteq> set ''Content-type image/png is not supported.''"
      by (rule set_mono_sublist)
    then show False by simp
  qed
  then show ?thesis
    by (simp add: image_spec_match wildcard_load UnsupportedMediaType_def)
qed

text \<open>
  C10. When the \<open>supports\<close> of entry \<open>n\<close> throws (the entries before it answer false),
  the load fails with that error after \<open>normalizeParsingError\<close>: the status code is 400
  when it was absent, 0 or at least 500 and is unchanged otherwise, name and message
  are kept. It is not the 415 error of a missing parser, and no \<open>parse\<close> is invoked.
\<close>

theorem C10_error_thrown_by_supports:
  assumes "requestBody spec = Some (RequestBodyObject c)"
    and "match_loop is (request_contentType request) (declared_content c) [''value'' \<mapsto> JUndefined]
           = (Some m, rb')"
    and "n < length (parsers this)"
    and "\<forall>j<n. supports (parsers this ! j) m = Inr False"
    and "supports (parsers this ! n) m = Inl e"
  shows "loadRequestBodyIfNeeded is this spec request =
           (Thrown (RequestBodyParser_normalizeParsingError e),
            asked m 0 n @ [SupportsCalled n m])
         \<and> statusCode (RequestBodyParser_normalizeParsingError e) =
             (case statusCode e of
                None \<Rightarrow> Some 400
              | Some sc \<Rightarrow> if sc = 0 \<or> 500 \<le> sc then Some 400 else Some sc)
         \<and> errorName (RequestBodyParser_normalizeParsingError e) = errorName e
         \<and> message (RequestBodyParser_normalizeParsingError e) = message e
         \<and> parse_calls (snd (loadRequestBodyIfNeeded is this spec request)) = []"
proof -
  have tp: "try_parsers (parsers this) 0 m request rb' =
      (Some (Thrown e), asked m 0 n @ [SupportsCalled n m])"
    using try_parsers_first_throwing [OF assms(3,4,5), of 0 request rb'] by simp
  have res: "loadRequestBodyIfNeeded is this spec request =
           (Thrown (RequestBodyParser_normalizeParsingError e),
            asked m 0 n @ [SupportsCalled n m])"
    using load_request_body_object [OF assms(1,2), of this] tp by simp
  have st: "statusCode (RequestBodyParser_normalizeParsingError e) =
             (case statusCode e of
                None \<Rightarrow> Some 400
              | Some sc \<Rightarrow> if sc = 0 \<or> 500 \<le> sc then Some 400 else Some sc)"
    by (simp add: RequestBodyParser_normalizeParsingError_def needs_400_def split: option.splits)
  have keep: "errorName (RequestBodyParser_normalizeParsingError e) = errorName e"
    "message (RequestBodyParser_normalizeParsingError e) = message e"
    by (simp_all add: RequestBodyParser_normalizeParsingError_def)
  show ?thesis using res st keep by simp
qed

text \<open>C10 at an entry whose \<open>supports\<close> throws an error without a status, with 503 and with 404.\<close>

theorem C10_sample_throwing_supports:
  "loadRequestBodyIfNeeded sample_is (sample_this [throwing_parser None]) json_spec json_request =
     (Thrown \<lparr>errorName = ''SyntaxError'', statusCode = Some 400, message = ''bad body''\<rparr>,
      [SupportsCalled 0 ''application/json''])
   \<and> loadRequestBodyIfNeeded sample_is (sample_this [throwing_parser (Some 503)]) json_spec json_request =
     (Thrown \<lparr>errorName = ''SyntaxError'', statusCode = Some 400, message = ''bad body''\<rparr>,
      [SupportsCalled 0 ''application/json''])
   \<and> loadRequestBodyIfNeeded sample_is (sample_this [throwing_parser (Some 404)]) json_spec json_request =
     (Thrown \<lparr>errorName = ''SyntaxError'', statusCode = Some 404, message = ''bad body''\<rparr>,
      [SupportsCalled 0 ''application/json''])"
proof -
  have h: "0 < length (parsers (sample_this [throwing_parser sc]))"
    "\<forall>j<0. supports (parsers (sample_this [throwing_parser sc]) ! j) ''application/json'' = Inr False"
    "supports (parsers (sample_this [throwing_parser sc]) ! 0) ''application/json''
       = Inl (sample_error sc)" for sc
    by (simp_all add: sample_this_parsers throwing_parser_def)
  have n: "RequestBodyParser_normalizeParsingError (sample_error None)
      = \<lparr>errorName = ''SyntaxError'', statusCode = Some 400, message = ''bad body''\<rparr>"
    "RequestBodyParser_normalizeParsingError (sample_error (Some 503))
      = \<lparr>errorName = ''SyntaxError'', statusCode = Some 400, message = ''bad body''\<rparr>"
    "RequestBodyParser_normalizeParsingError (sample_error (Some 404))
      = \<lparr>errorName = ''SyntaxError'', statusCode = Some 404, message = ''bad body''\<rparr>"
    by (simp_all add: RequestBodyParser_normalizeParsingError_def needs_400_def sample_error_def)
  show ?thesis
    using C10_error_thrown_by_supports [OF json_spec_body json_spec_match h(1) h(2) h(3), of None]
      C10_error_thrown_by_supports [OF json_spec_body json_spec_match h(1) h(2) h(3), of "Some 503"]
      C10_error_thrown_by_supports [OF json_spec_body json_spec_match h(1) h(2) h(3), of "Some 404"]
    by (simp add: n)
qed

subsection \<open>The parse result and parsing errors\<close>

lemma builtin_parse_fields:
  assumes "p \<in> set (builtin_parsers is jp up tp)" and "parse p request = Inr parsed"
  shows "parsed ''mediaType'' = None \<and> parsed ''schema'' = None \<and> parsed ''value'' \<noteq> None"
  using assms
  by (auto simp: builtin_parsers_def parseJsonBody_def parseUrlencodedBody_def parseTextBody_def
      split: sum.splits)

lemma load_returned:
  assumes "requestBody spec = Some (RequestBodyObject c)"
    and "loadRequestBodyIfNeeded is this spec request = (Returned r, tr)"
  shows "\<exists>i m rb' parsed.
       match_loop is (request_contentType request) (declared_content c) [''value'' \<mapsto> JUndefined]
         = (Some m, rb') \<and>
       i < length (parsers this) \<and>
       tr = asked m 0 i @ [SupportsCalled i m, ParseCalled i] \<and>
       parse (parsers this ! i) request = Inr parsed \<and>
       r = Object_assign rb' parsed"
proof -
  obtain mm rb' where ml:
    "match_loop is (request_contentType request) (declared_content c) [''value'' \<mapsto> JUndefined]
       = (mm, rb')"
    by (cases "match_loop is (request_contentType request) (declared_content c) [''value'' \<mapsto> JUndefined]")
  note l = load_request_body_object [OF assms(1) ml, of this]
  from l assms(2) obtain m where mm: "mm = Some m"
    by (cases mm) auto
  obtain r0 tr0 where tp: "try_parsers (parsers this) 0 m request rb' = (r0, tr0)"
    by (cases "try_parsers (parsers this) 0 m request rb'")
  from l assms(2) mm tp have r0: "r0 = Some (Returned r)" and tr0: "tr0 = tr"
    by (auto split: option.splits completion.splits)
  from try_parsers_inv [OF tp] r0 obtain pre p post where
    ps: "parsers this = pre @ p # post" and
    t: "tr0 = asked m 0 (length pre) @
                [SupportsCalled (0 + length pre) m, ParseCalled (0 + length pre)]" and
    r: "Returned r = (case parse p request of
                    Inl e \<Rightarrow> Thrown e
                  | Inr parsed \<Rightarrow> Returned (Object_assign rb' parsed))"
    by auto
  from r obtain parsed where "parse p request = Inr parsed" "r = Object_assign rb' parsed"
    by (cases "parse p request") auto
  moreover have "length pre < length (parsers this)" "parsers this ! length pre = p"
    using ps by simp_all
  ultimately show ?thesis using ml mm t tr0 by auto
qed

text \<open>
  C2, as the code has it. When a declared type matched and the load returns, exactly
  one entry was invoked, and the returned request body is the parse result merged
  over \<open>{value: undefined, mediaType: <declared type>, schema: <its schema>}\<close>:
  each of \<open>value\<close>, \<open>mediaType\<close> and \<open>schema\<close> is the parse result's field when it has
  one, and the recorded one otherwise; every other field comes from the parse
  result. The results of the three built-in entries have a \<open>value\<close> and neither
  \<open>mediaType\<close> nor \<open>schema\<close>, so for them the recorded \<open>mediaType\<close> and \<open>schema\<close> are
  always preserved.
\<close>

theorem C2_merge_of_parse_result:
  assumes "requestBody spec = Some (RequestBodyObject c)"
    and "loadRequestBodyIfNeeded is this spec request = (Returned r, tr)"
  shows "(\<exists>i type mto parsed.
            parse_calls tr = [i] \<and> i < length (parsers this)
            \<and> parse (parsers this ! i) request = Inr parsed
            \<and> (type, mto) \<in> set (declared_content c)
            \<and> truthy (is (request_contentType request) type)
            \<and> r ''value'' = (case parsed ''value'' of Some v \<Rightarrow> Some v | None \<Rightarrow> Some JUndefined)
            \<and> r ''mediaType'' =
                (case parsed ''mediaType'' of Some v \<Rightarrow> Some v | None \<Rightarrow> Some (JStr type))
            \<and> r ''schema'' =
                (case parsed ''schema'' of Some v \<Rightarrow> Some v
                 | None \<Rightarrow> Some (get_prop mto ''schema''))
            \<and> (\<forall>k. k \<noteq> ''value'' \<and> k \<noteq> ''mediaType'' \<and> k \<noteq> ''schema'' \<longrightarrow> r k = parsed k))
         \<and> (\<forall>p parsed. p \<in> set (builtin_parsers is jp up tp) \<and> parse p request = Inr parsed \<longrightarrow>
               parsed ''mediaType'' = None \<and> parsed ''schema'' = None \<and> parsed ''value'' \<noteq> None)"
proof -
  from load_returned [OF assms] obtain i m rb' parsed where
    ml: "match_loop is (request_contentType request) (declared_content c) [''value'' \<mapsto> JUndefined]
         = (Some m, rb')" and
    i: "i < length (parsers this)" and
    tr: "tr = asked m 0 i @ [SupportsCalled i m, ParseCalled i]" and
    p: "parse (parsers this ! i) request = Inr parsed" and
    r: "r = Object_assign rb' parsed"
    by blast
  from match_loop_SomeD [OF ml] obtain pre type mto post where
    dc: "declared_content c = pre @ (type, mto) # post" and
    m: "is (request_contentType request) type = Some m" "m \<noteq> []" and
    rb': "rb' = [''value'' \<mapsto> JUndefined, ''mediaType'' \<mapsto> JStr type,
                ''schema'' \<mapsto> get_prop mto ''schema'']"
    by blast
  have v: "r ''value'' = (case parsed ''value'' of Some v \<Rightarrow> Some v | None \<Rightarrow> Some JUndefined)"
    unfolding r rb' Object_assign_def by (simp add: map_add_def split: option.splits)
  have mt: "r ''mediaType'' =
      (case parsed ''mediaType'' of Some v \<Rightarrow> Some v | None \<Rightarrow> Some (JStr type))"
    unfolding r rb' Object_assign_def by (simp add: map_add_def split: option.splits)
  have sch: "r ''schema'' =
      (case parsed ''schema'' of Some v \<Rightarrow> Some v | None \<Rightarrow> Some (get_prop mto ''schema''))"
    unfolding r rb' Object_assign_def by (simp add: map_add_def split: option.splits)
  have rest: "\<forall>k. k \<noteq> ''value'' \<and> k \<noteq> ''mediaType'' \<and> k \<noteq> ''schema'' \<longrightarrow> r k = parsed k"
    unfolding r rb' Object_assign_def by (simp add: map_add_def split: option.splits)
  have "parse_calls tr = [i]" using tr by simp
  moreover have "(type, mto) \<in> set (declared_content c)" using dc by simp
  moreover have "truthy (is (request_contentType request) type)"
    using m by (simp add: truthy_def)
  ultimately have first: "\<exists>i type mto parsed.
            parse_calls tr = [i] \<and> i < length (parsers this)
            \<and> parse (parsers this ! i) request = Inr parsed
            \<and> (type, mto) \<in> set (declared_content c)
            \<and> truthy (is (request_contentType request) type)
            \<and> r ''value'' = (case parsed ''value'' of Some v \<Rightarrow> Some v | None \<Rightarrow> Some JUndefined)
            \<and> r ''mediaType'' =
                (case parsed ''mediaType'' of Some v \<Rightarrow> Some v | None \<Rightarrow> Some (JStr type))
            \<and> r ''schema'' =
                (case parsed ''schema'' of Some v \<Rightarrow> Some v
                 | None \<Rightarrow> Some (get_prop mto ''schema''))
            \<and> (\<forall>k. k \<noteq> ''value'' \<and> k \<noteq> ''mediaType'' \<and> k \<noteq> ''schema'' \<longrightarrow> r k = parsed k)"
    using i p v mt sch rest by blast
  have second: "\<forall>p parsed. p \<in> set (builtin_parsers is jp up tp) \<and> parse p request = Inr parsed \<longrightarrow>
               parsed ''mediaType'' = None \<and> parsed ''schema'' = None \<and> parsed ''value'' \<noteq> None"
    using builtin_parse_fields by blast
  from first second show ?thesis by (rule conjI)
qed

text \<open>
  C2 at an extension entry whose result is \<open>{value: 'plain'}\<close>: \<open>value\<close> is overwritten,
  \<open>mediaType\<close> and \<open>schema\<close> are the recorded ones.
\<close>

theorem C2_sample_plain_parser:
  "snd (loadRequestBodyIfNeeded sample_is (sample_this [plain_parser]) json_spec json_request)
       = [SupportsCalled 0 ''application/json'', ParseCalled 0]
   \<and> (case fst (loadRequestBodyIfNeeded sample_is (sample_this [plain_parser]) json_spec json_request) of
         Returned r \<Rightarrow>
           r ''value'' = Some (JStr ''plain'')
           \<and> r ''mediaType'' = Some (JStr ''application/json'')
           \<and> r ''schema'' = Some (JObj [''type'' \<mapsto> JStr ''string''])
       | Thrown e \<Rightarrow> False)"
proof -
  let ?R = "Object_assign
        [''value'' \<mapsto> JUndefined, ''mediaType'' \<mapsto> JStr ''application/json'',
         ''schema'' \<mapsto> JObj [''type'' \<mapsto> JStr ''string'']] [''value'' \<mapsto> JStr ''plain'']"
  have "supports plain_parser ''application/json'' = Inr True"
    "parse plain_parser json_request = Inr [''value'' \<mapsto> JStr ''plain'']"
    by (simp_all add: plain_parser_def)
  from sample_load_first_extension [OF this, of "[]"]
  have l: "loadRequestBodyIfNeeded sample_is (sample_this [plain_parser]) json_spec json_request =
     (Returned ?R, [SupportsCalled 0 ''application/json'', ParseCalled 0])" .
  from C2_merge_of_parse_result [OF json_spec_body l, THEN conjunct1]
  obtain i type mto parsed where
    i: "parse_calls [SupportsCalled 0 ''application/json'', ParseCalled 0] = [i]" and
    p: "parse (parsers (sample_this [plain_parser]) ! i) json_request = Inr parsed" and
    t: "(type, mto) \<in> set (declared_content (Some
          [(''application/json'', [''schema'' \<mapsto> JObj [''type'' \<mapsto> JStr ''string'']])]))" and
    v: "?R ''value'' = (case parsed ''value'' of Some v \<Rightarrow> Some v | None \<Rightarrow> Some JUndefined)" and
    mt: "?R ''mediaType'' =
          (case parsed ''mediaType'' of Some v \<Rightarrow> Some v | None \<Rightarrow> Some (JStr type))" and
    sch: "?R ''schema'' =
          (case parsed ''schema'' of Some v \<Rightarrow> Some v | None \<Rightarrow> Some (get_prop mto ''schema''))"
    by (elim exE conjE) (rule that)
  from i have i0: "i = 0" by simp
  from p i0 have parsed: "parsed = [''value'' \<mapsto> JStr ''plain'']"
    by (simp add: sample_this_parsers plain_parser_def)
  from t have ty: "type = ''application/json''"
    "mto = [''schema'' \<mapsto> JObj [''type'' \<mapsto> JStr ''string'']]"
    by (simp_all add: declared_content_def)
  from v mt sch have "?R ''value'' = Some (JStr ''plain'')"
    "?R ''mediaType'' = Some (JStr ''application/json'')"
    "?R ''schema'' = Some (JObj [''type'' \<mapsto> JStr ''string''])"
    unfolding parsed ty by (simp_all add: get_prop_def)
  with l show ?thesis by simp
qed

text \<open>
  C2 as stated fails for an extension entry whose result has a \<open>mediaType\<close>: the type
  matching recorded \<open>application/json\<close>, the entry returns
  \<open>{value: 'custom', mediaType: 'x/custom'}\<close>, and the returned request body has
  \<open>mediaType: 'x/custom'\<close>.
\<close>

theorem C2_parse_result_replaces_mediaType:
  "snd (match_loop sample_is (request_contentType json_request)
          (declared_content (Some
             [(''application/json'', [''schema'' \<mapsto> JObj [''type'' \<mapsto> JStr ''string'']])]))
          [''value'' \<mapsto> JUndefined]) ''mediaType'' = Some (JStr ''application/json'')
   \<and> snd (loadRequestBodyIfNeeded sample_is (sample_this [custom_parser]) json_spec json_request)
       = [SupportsCalled 0 ''application/json'', ParseCalled 0]
   \<and> (case fst (loadRequestBodyIfNeeded sample_is (sample_this [custom_parser]) json_spec json_request) of
         Returned r \<Rightarrow>
           r ''mediaType'' = Some (JStr ''x/custom'')
           \<and> r ''mediaType'' \<noteq> Some (JStr ''application/json'')
       | Thrown e \<Rightarrow> False)"
proof -
  have "supports custom_parser ''application/json'' = Inr True"
    "parse custom_parser json_request =
       Inr [''value'' \<mapsto> JStr ''custom'', ''mediaType'' \<mapsto> JStr ''x/custom'']"
    by (simp_all add: custom_parser_def)
  from sample_load_first_extension [OF this, of "[]"] show ?thesis
    by (simp add: json_spec_match Object_assign_def)
qed

lemma builtin_parse_rejects:
  assumes "handle request = (Some err, rq)"
  shows "parseJsonBody handle request = Inl (normalizeParsingError err)"
    and "parseUrlencodedBody handle request = Inl (normalizeParsingError err)"
    and "parseTextBody handle request = Inl (normalizeParsingError err)"
  using assms
  by (simp_all add: parseJsonBody_def parseUrlencodedBody_def parseTextBody_def parse_handle_def)

lemma normalizeParsingError_status:
  "statusCode (normalizeParsingError err) =
     (case statusCode err of
        None \<Rightarrow> Some 400
      | Some sc \<Rightarrow> if sc = 0 \<or> 500 \<le> sc then Some 400 else Some sc)"
  by (simp add: normalizeParsingError_def needs_400_def split: option.splits)

lemma normalizeParsingError_idem:
  "RequestBodyParser_normalizeParsingError (normalizeParsingError e) = normalizeParsingError e"
  by (simp add: RequestBodyParser_normalizeParsingError_def normalizeParsingError_def needs_400_def)

text \<open>
  C3. When the \<open>parse\<close> of the invoked entry fails with an error, the load fails with
  that error after \<open>normalizeParsingError\<close>: a status code from 400 to 499 is
  unchanged, an absent one and one of 500 or more become 400, and the status code
  of the error that surfaces is always below 500; name and message are kept. For
  the built-in entries the error of the middleware has been normalized once by the
  \<open>parse\<close> helper before, which the second normalization leaves as it is.
\<close>

theorem C3_parsing_error_status:
  assumes "loadRequestBodyIfNeeded is this spec request = (res, tr)"
    and "i \<in> set (parse_calls tr)"
    and "parse (parsers this ! i) request = Inl e"
  shows "res = Thrown (RequestBodyParser_normalizeParsingError e)
         \<and> (\<forall>sc. statusCode e = Some sc \<and> 400 \<le> sc \<and> sc \<le> 499 \<longrightarrow>
               statusCode (RequestBodyParser_normalizeParsingError e) = Some sc)
         \<and> (statusCode e = None \<longrightarrow>
               statusCode (RequestBodyParser_normalizeParsingError e) = Some 400)
         \<and> (\<forall>sc. statusCode e = Some sc \<and> 500 \<le> sc \<longrightarrow>
               statusCode (RequestBodyParser_normalizeParsingError e) = Some 400)
         \<and> (\<exists>sc. statusCode (RequestBodyParser_normalizeParsingError e) = Some sc \<and> sc < 500)
         \<and> errorName (RequestBodyParser_normalizeParsingError e) = errorName e
         \<and> message (RequestBodyParser_normalizeParsingError e) = message e
         \<and> (\<forall>handle err rq. handle request = (Some err, rq) \<longrightarrow>
               parseJsonBody handle request = Inl (normalizeParsingError err)
               \<and> parseUrlencodedBody handle request = Inl (normalizeParsingError err)
               \<and> parseTextBody handle request = Inl (normalizeParsingError err)
               \<and> RequestBodyParser_normalizeParsingError (normalizeParsingError err)
                   = normalizeParsingError err
               \<and> statusCode (normalizeParsingError err) =
                   (case statusCode err of
                      None \<Rightarrow> Some 400
                    | Some sc \<Rightarrow> if sc = 0 \<or> 500 \<le> sc then Some 400 else Some sc))"
proof -
  from load_parse_called [OF assms(1,2)] assms(3)
  have res: "res = Thrown (RequestBodyParser_normalizeParsingError e)"
    by auto
  have st: "statusCode (RequestBodyParser_normalizeParsingError e) =
      (if needs_400 (statusCode e) then Some 400 else statusCode e)"
    by (rule normalize_status)
  have a: "\<forall>sc. statusCode e = Some sc \<and> 400 \<le> sc \<and> sc \<le> 499 \<longrightarrow>
               statusCode (RequestBodyParser_normalizeParsingError e) = Some sc"
    unfolding st by (simp add: needs_400_def)
  have b: "statusCode e = None \<longrightarrow>
               statusCode (RequestBodyParser_normalizeParsingError e) = Some 400"
    unfolding st by (simp add: needs_400_def)
  have c: "\<forall>sc. statusCode e = Some sc \<and> 500 \<le> sc \<longrightarrow>
               statusCode (RequestBodyParser_normalizeParsingError e) = Some 400"
    unfolding st by (simp add: needs_400_def)
  have d: "\<exists>sc. statusCode (RequestBodyParser_normalizeParsingError e) = Some sc \<and> sc < 500"
    unfolding st by (cases "statusCode e") (auto simp: needs_400_def)
  have keep: "errorName (RequestBodyParser_normalizeParsingError e) = errorName e"
    "message (RequestBodyParser_normalizeParsingError e) = message e"
    by (simp_all add: RequestBodyParser_normalizeParsingError_def)
  have builtin: "\<forall>handle err rq. handle request = (Some err, rq) \<longrightarrow>
               parseJsonBody handle request = Inl (normalizeParsingError err)
               \<and> parseUrlencodedBody handle request = Inl (normalizeParsingError err)
               \<and> parseTextBody handle request = Inl (normalizeParsingError err)
               \<and> RequestBodyParser_normalizeParsingError (normalizeParsingError err)
                   = normalizeParsingError err
               \<and> statusCode (normalizeParsingError err) =
                   (case statusCode err of
                      None \<Rightarrow> Some 400
                    | Some sc \<Rightarrow> if sc = 0 \<or> 500 \<le> sc then Some 400 else Some sc)"
    by (simp add: builtin_parse_rejects normalizeParsingError_idem normalizeParsingError_status)
  from res a b c d keep builtin show ?thesis
    by (intro conjI)
qed

text \<open>C3 at an entry that fails with status 503, with no status and with status 413.\<close>

theorem C3_sample_rejections:
  "fst (loadRequestBodyIfNeeded sample_is (sample_this [rejecting_parser (Some 503)]) json_spec json_request)
     = Thrown \<lparr>errorName = ''SyntaxError'', statusCode = Some 400, message = ''bad body''\<rparr>
   \<and> fst (loadRequestBodyIfNeeded sample_is (sample_this [rejecting_parser None]) json_spec json_request)
     = Thrown \<lparr>errorName = ''SyntaxError'', statusCode = Some 400, message = ''bad body''\<rparr>
   \<and> fst (loadRequestBodyIfNeeded sample_is (sample_this [rejecting_parser (Some 413)]) json_spec json_request)
     = Thrown \<lparr>errorName = ''SyntaxError'', statusCode = Some 413, message = ''bad body''\<rparr>"
proof -
  have h: "0 \<in> set (parse_calls [SupportsCalled 0 ''application/json'', ParseCalled 0])"
    "parse (parsers (sample_this [rejecting_parser sc]) ! 0) json_request = Inl (sample_error sc)" for sc
    by (simp_all add: sample_this_parsers rejecting_parser_def)
  have n: "RequestBodyParser_normalizeParsingError (sample_error None)
      = \<lparr>errorName = ''SyntaxError'', statusCode = Some 400, message = ''bad body''\<rparr>"
    "RequestBodyParser_normalizeParsingError (sample_error (Some 503))
      = \<lparr>errorName = ''SyntaxError'', statusCode = Some 400, message = ''bad body''\<rparr>"
    "RequestBodyParser_normalizeParsingError (sample_error (Some 413))
      = \<lparr>errorName = ''SyntaxError'', statusCode = Some 413, message = ''bad body''\<rparr>"
    by (simp_all add: RequestBodyParser_normalizeParsingError_def needs_400_def sample_error_def)
  show ?thesis
    using C3_parsing_error_status
        [OF sample_load_rejecting [of "Some 503" "[]"] h(1) h(2) [of "Some 503"]]
      C3_parsing_error_status
        [OF sample_load_rejecting [of None "[]"] h(1) h(2) [of None]]
      C3_parsing_error_status
        [OF sample_load_rejecting [of "Some 413" "[]"] h(1) h(2) [of "Some 413"]]
    by (simp add: n sample_load_rejecting)
qed

end
